theory Spec2Isabelle
  imports Main "HOL-Library.AList"
begin

section \<open>The relay server of \<open>App.tsx\<close> (the \<open>ws\<close> server that follows the React client)\<close>

text \<open>
  The server keeps two tables, \<open>rooms\<close> (room code to \<open>Set<Client>\<close>) and
  \<open>roomMetadata\<close> (room code to \<open>{created, lastActivity}\<close>), and three handlers per
  socket (\<open>message\<close>, \<open>close\<close>, \<open>error\<close>) plus a timer that sweeps expired rooms.

  The embedding is by explicit state passing. Each handler takes the server state and
  returns the new state together with the list of frames it handed to \<open>send\<close>, in order.
  A JavaScript object used as a dictionary is an association list in insertion order
  (\<open>map_of\<close> reads it, \<open>AList.update\<close> assigns a key, \<open>AList.delete\<close> is \<open>delete\<close>);
  a \<open>Set\<close> is a list in insertion order without repetition. \<open>new Date()\<close> and
  \<open>Math.random()\<close> are inputs of the handlers.
\<close>

subsection \<open>Data\<close>

text \<open>A socket is an object compared by identity (\<open>client === socket\<close>).\<close>

type_synonym conn = nat

text \<open>\<open>socket.readyState\<close> of the \<open>ws\<close> library.\<close>

datatype ready_state = CONNECTING | OPEN | CLOSING | CLOSED

text \<open>
  A field of the parsed JSON message, as far as the handlers inspect it: they only test
  \<open>typeof v === "string"\<close> and truthiness. \<open>JUndefined\<close> is an absent field, \<open>JOther\<close> any
  value that is not a string (number, boolean, null, array, object).
\<close>

datatype jsval = JUndefined | JStr string | JOther

text \<open>
  An inbound frame after \<open>JSON.parse(data.toString())\<close>. \<open>Malformed\<close> stands for the two
  ways into the \<open>catch\<close> block: \<open>JSON.parse\<close> throws, or the parsed value is falsy or not
  of type \<open>object\<close>. Otherwise the handlers read the fields \<open>type\<close>, \<open>roomId\<close>, \<open>content\<close>
  and \<open>sender\<close>.
\<close>

datatype frame = Malformed | Obj jsval jsval jsval jsval

text \<open>The frames the server sends: \<open>type\<close> and the fields that go with it.\<close>

datatype out_msg =
    RoomCreated string nat
  | JoinedRoom string
  | UserCountUpdate nat
  | ChatMessage string string bool
  | Error string

type_synonym sent = "conn \<times> out_msg"

text \<open>Timestamps are \<open>Date.getTime()\<close> values: milliseconds as integers.\<close>

record room_meta =
  created :: int
  lastActivity :: int

record server =
  rooms :: "(string \<times> conn list) list"
  roomMetadata :: "(string \<times> room_meta) list"
  roomId :: "conn \<Rightarrow> string option"
  readyState :: "conn \<Rightarrow> ready_state"

definition init :: server where
  "init = \<lparr> rooms = [], roomMetadata = [], roomId = (\<lambda>c. None),
            readyState = (\<lambda>c. CONNECTING) \<rparr>"

subsection \<open>\<open>Set<Client>\<close>\<close>

text \<open>\<open>Set.prototype.add\<close> appends a value that is not yet in the set and is a no-op
  otherwise; \<open>delete\<close> removes it; \<open>size\<close> is the length of the list; \<open>forEach\<close>
  visits the list from left to right.\<close>

definition set_add :: "'a \<Rightarrow> 'a list \<Rightarrow> 'a list" where
  "set_add x xs = (if x \<in> set xs then xs else xs @ [x])"

definition set_delete :: "'a \<Rightarrow> 'a list \<Rightarrow> 'a list" where
  "set_delete x xs = removeAll x xs"

subsection \<open>Strings\<close>

text \<open>
  \<open>String.prototype.toUpperCase\<close> on room codes. A \<open>string\<close> is a list of 8-bit
  characters; the model maps the letters \<open>a\<close> to \<open>z\<close> and leaves every other character
  as it is, which is what JavaScript does on ASCII text, the text room codes are made
  of (\<open>A\<close> to \<open>Z\<close>, \<open>0\<close> to \<open>9\<close>). On letters outside ASCII JavaScript maps more
  than this function does; the statements below use the function only as the map from
  the code in a frame to the key that is looked up, together with the fact that it keeps
  a non-empty string non-empty.
\<close>

definition upper_char :: "char \<Rightarrow> char" where
  "upper_char c =
     (case map_of (zip ''abcdefghijklmnopqrstuvwxyz'' ''ABCDEFGHIJKLMNOPQRSTUVWXYZ'') c of
        None \<Rightarrow> c
      | Some u \<Rightarrow> u)"

definition toUpperCase :: "string \<Rightarrow> string" where
  "toUpperCase str = map upper_char str"

subsection \<open>\<open>generateShortCode\<close>\<close>

text \<open>
  \<open>rnd n\<close> is the value of the \<open>n\<close>-th evaluation of
  \<open>Math.floor(Math.random() * chars.length)\<close>; \<open>Math.random()\<close> lies in \<open>[0, 1)\<close>, so the
  index is below \<open>chars.length = 36\<close>, which the \<open>mod\<close> records. The \<open>k\<close>-th call of
  \<open>generateShortCode\<close> consumes six of these values.
\<close>

definition chars :: string where
  "chars = ''ABCDEFGHIJKLMNOPQRSTUVWXYZ0123456789''"

definition generateShortCode :: "(nat \<Rightarrow> nat) \<Rightarrow> nat \<Rightarrow> string" where
  "generateShortCode rnd k = map (\<lambda>i. chars ! (rnd (6 * k + i) mod length chars)) [0..<6]"

text \<open>The truthiness tests \<open>rooms[id]\<close> and \<open>roomMetadata[id]\<close>: a stored \<open>Set\<close> or
  metadata object is always truthy, a missing key reads \<open>undefined\<close>.\<close>

definition hasRoom :: "server \<Rightarrow> string \<Rightarrow> bool" where
  "hasRoom s r = (map_of (rooms s) r \<noteq> None)"

definition hasMetadata :: "server \<Rightarrow> string \<Rightarrow> bool" where
  "hasMetadata s r = (map_of (roomMetadata s) r \<noteq> None)"

text \<open>The members stored under a code; an absent set has no members.\<close>

definition members :: "server \<Rightarrow> string \<Rightarrow> conn list" where
  "members s r = (case map_of (rooms s) r of None \<Rightarrow> [] | Some cs \<Rightarrow> cs)"

text \<open>
  The loop \<open>while (rooms[newRoomId] || roomMetadata[newRoomId]) newRoomId =
  generateShortCode()\<close>, started at the \<open>k\<close>-th generated code. It need not terminate;
  \<open>None\<close> is the handler that never returns.
\<close>

partial_function (option) uniqueCode :: "server \<Rightarrow> (nat \<Rightarrow> nat) \<Rightarrow> nat \<Rightarrow> string option" where
  "uniqueCode s rnd k =
     (if hasRoom s (generateShortCode rnd k) \<or> hasMetadata s (generateShortCode rnd k)
      then uniqueCode s rnd (Suc k)
      else Some (generateShortCode rnd k))"

subsection \<open>Sending\<close>

text \<open>Every \<open>send\<close> of the source is guarded by \<open>readyState === WebSocket.OPEN\<close>.\<close>

definition send :: "server \<Rightarrow> conn \<Rightarrow> out_msg \<Rightarrow> sent list" where
  "send s client m = (if readyState s client = OPEN then [(client, m)] else [])"

text \<open>\<open>set.forEach((client) => { if (client.readyState === OPEN) client.send(m client) })\<close>\<close>

definition forEach_send :: "server \<Rightarrow> conn list \<Rightarrow> (conn \<Rightarrow> out_msg) \<Rightarrow> sent list" where
  "forEach_send s cs m = concat (map (\<lambda>client. send s client (m client)) cs)"

subsection \<open>The \<open>message\<close> handler\<close>

text \<open>\<open>case "create-room"\<close>: \<open>customRoomId\<close> is \<open>message.roomId\<close>.\<close>

definition chooseRoomId :: "server \<Rightarrow> (nat \<Rightarrow> nat) \<Rightarrow> jsval \<Rightarrow> string option" where
  "chooseRoomId s rnd customRoomId =
     (case customRoomId of
        JStr str \<Rightarrow> if str \<noteq> [] then Some (toUpperCase str) else uniqueCode s rnd 0
      | _ \<Rightarrow> uniqueCode s rnd 0)"

definition createRoomAs :: "int \<Rightarrow> server \<Rightarrow> conn \<Rightarrow> string \<Rightarrow> server \<times> sent list" where
  "createRoomAs now s socket newRoomId =
     (let s1 = (if \<not> hasRoom s newRoomId
                then s\<lparr>rooms := AList.update newRoomId [] (rooms s)\<rparr> else s);
          s2 = s1\<lparr>roomMetadata :=
                    AList.update newRoomId \<lparr>created = now, lastActivity = now\<rparr> (roomMetadata s1)\<rparr>;
          s3 = s2\<lparr>rooms := AList.update newRoomId (set_add socket (members s2 newRoomId)) (rooms s2)\<rparr>;
          s4 = s3\<lparr>roomId := (roomId s3)(socket := Some newRoomId)\<rparr>
      in (s4, send s4 socket (RoomCreated newRoomId (length (members s4 newRoomId)))))"

definition createRoom :: "int \<Rightarrow> (nat \<Rightarrow> nat) \<Rightarrow> server \<Rightarrow> conn \<Rightarrow> jsval \<Rightarrow> (server \<times> sent list) option" where
  "createRoom now rnd s socket customRoomId =
     (case chooseRoomId s rnd customRoomId of
        None \<Rightarrow> None
      | Some newRoomId \<Rightarrow> Some (createRoomAs now s socket newRoomId))"

text \<open>\<open>case "join-room"\<close>: \<open>joinRoomId\<close> is \<open>message.roomId\<close>.\<close>

definition touchJoin :: "int \<Rightarrow> string \<Rightarrow> server \<Rightarrow> server" where
  "touchJoin now r s =
     (case map_of (roomMetadata s) r of
        None \<Rightarrow> s
      | Some m \<Rightarrow> s\<lparr>roomMetadata := AList.update r (m\<lparr>lastActivity := now\<rparr>) (roomMetadata s)\<rparr>)"

definition joinRoomAs :: "int \<Rightarrow> server \<Rightarrow> conn \<Rightarrow> string \<Rightarrow> server \<times> sent list" where
  "joinRoomAs now s socket upperRoomId =
     (if hasRoom s upperRoomId \<or> hasMetadata s upperRoomId then
        (let s1 = (if \<not> hasRoom s upperRoomId
                   then s\<lparr>rooms := AList.update upperRoomId [] (rooms s)\<rparr> else s);
             s2 = s1\<lparr>rooms := AList.update upperRoomId (set_add socket (members s1 upperRoomId)) (rooms s1)\<rparr>;
             s3 = s2\<lparr>roomId := (roomId s2)(socket := Some upperRoomId)\<rparr>;
             s4 = touchJoin now upperRoomId s3
         in (s4, send s4 socket (JoinedRoom upperRoomId) @
                 forEach_send s4 (members s4 upperRoomId)
                   (\<lambda>client. UserCountUpdate (length (members s4 upperRoomId)))))
      else (s, send s socket (Error ''Room not found'')))"

definition joinRoom :: "int \<Rightarrow> server \<Rightarrow> conn \<Rightarrow> jsval \<Rightarrow> server \<times> sent list" where
  "joinRoom now s socket joinRoomId =
     (case joinRoomId of
        JStr str \<Rightarrow>
          if str = [] then (s, send s socket (Error ''Invalid room code''))
          else joinRoomAs now s socket (toUpperCase str)
      | _ \<Rightarrow> (s, send s socket (Error ''Invalid room code'')))"

text \<open>\<open>case "chat-message"\<close>\<close>

definition chatMessageIn :: "server \<Rightarrow> conn \<Rightarrow> string \<Rightarrow> string \<Rightarrow> string \<Rightarrow> server \<times> sent list" where
  "chatMessageIn s socket upperChatRoomId content sender =
     (case map_of (rooms s) upperChatRoomId of
        Some cs \<Rightarrow>
          (s, forEach_send s cs (\<lambda>client. ChatMessage content sender (client = socket)))
      | None \<Rightarrow> (s, send s socket (Error ''Room not found'')))"

definition chatMessage :: "server \<Rightarrow> conn \<Rightarrow> jsval \<Rightarrow> jsval \<Rightarrow> jsval \<Rightarrow> server \<times> sent list" where
  "chatMessage s socket rid content sender =
     (case (rid, content, sender) of
        (JStr r, JStr c, JStr n) \<Rightarrow> chatMessageIn s socket (toUpperCase r) c n
      | _ \<Rightarrow> (s, send s socket (Error ''Invalid chat message format'')))"

text \<open>The \<open>switch (message.type)\<close> inside \<open>try\<close>/\<open>catch\<close>.\<close>

definition onMessage :: "int \<Rightarrow> (nat \<Rightarrow> nat) \<Rightarrow> server \<Rightarrow> conn \<Rightarrow> frame \<Rightarrow> (server \<times> sent list) option" where
  "onMessage now rnd s socket f =
     (case f of
        Malformed \<Rightarrow> Some (s, send s socket (Error ''Invalid message''))
      | Obj ty rid content sender \<Rightarrow>
          if ty = JStr ''create-room'' then createRoom now rnd s socket rid
          else if ty = JStr ''join-room'' then Some (joinRoom now s socket rid)
          else if ty = JStr ''chat-message'' then Some (chatMessage s socket rid content sender)
          else Some (s, send s socket (Error ''Unknown message type'')))"

subsection \<open>The \<open>close\<close> handler\<close>

definition onClose :: "server \<Rightarrow> conn \<Rightarrow> server \<times> sent list" where
  "onClose s socket =
     (case roomId s socket of
        None \<Rightarrow> (s, [])
      | Some r \<Rightarrow>
          if r \<noteq> [] \<and> hasRoom s r then
            (let s1 = s\<lparr>rooms := AList.update r (set_delete socket (members s r)) (rooms s)\<rparr>
             in if length (members s1 r) > 0
                then (s1, forEach_send s1 (members s1 r)
                            (\<lambda>client. UserCountUpdate (length (members s1 r))))
                else (s1, []))
          else (s, []))"

subsection \<open>The expiry sweep\<close>

definition expireTime :: int where
  "expireTime = 10 * 60 * 1000"

text \<open>The body of \<open>Object.keys(roomMetadata).forEach(roomId => ...)\<close>. The key comes
  from \<open>roomMetadata\<close> and only its own entry is deleted, so the metadata is there when
  the body runs; the \<open>None\<close> branch is not reached from \<open>sweep\<close> on a table without
  repeated keys.\<close>

definition sweepRoom :: "int \<Rightarrow> string \<Rightarrow> server \<Rightarrow> server" where
  "sweepRoom now r s =
     (case map_of (roomMetadata s) r of
        None \<Rightarrow> s
      | Some metadata \<Rightarrow>
          (let timeSinceActivity = now - lastActivity metadata
           in if (\<not> hasRoom s r \<or> length (members s r) = 0) \<and> timeSinceActivity > expireTime
              then (let s1 = s\<lparr>roomMetadata := AList.delete r (roomMetadata s)\<rparr>
                    in if hasRoom s1 r then s1\<lparr>rooms := AList.delete r (rooms s1)\<rparr> else s1)
              else s))"

definition sweep :: "int \<Rightarrow> server \<Rightarrow> server" where
  "sweep now s = fold (sweepRoom now) (map fst (roomMetadata s)) s"

subsection \<open>Runs of the server\<close>

text \<open>
  What can happen to the server: a socket connects (\<open>wss.on("connection")\<close> hands over an
  open socket with no \<open>roomId\<close>), a frame arrives on a socket that has connected and has
  not yet emitted \<open>close\<close>, a socket starts closing (the client of this repository calls
  \<open>socket.close()\<close> right after sending \<open>create-room\<close>), a socket emits \<open>close\<close> (its
  \<open>readyState\<close> is \<open>CLOSED\<close> by then), or the timer fires. A \<open>Message\<close> carries
  the frame, the time \<open>new Date()\<close> reads while it is handled, and the random draws of
  that handler run; \<open>Sweep\<close> carries the time of the pass. An event that cannot happen
  in the state, and a handler that never returns, give \<open>None\<close>.
\<close>

datatype event =
    Connection conn
  | Message conn frame int "nat \<Rightarrow> nat"
  | Closing conn
  | Close conn
  | Sweep int

definition live :: "server \<Rightarrow> conn \<Rightarrow> bool" where
  "live s c = (readyState s c = OPEN \<or> readyState s c = CLOSING)"

fun step :: "server \<Rightarrow> event \<Rightarrow> (server \<times> sent list) option" where
  "step s (Connection c) =
     (if readyState s c = CONNECTING
      then Some (s\<lparr>readyState := (readyState s)(c := OPEN)\<rparr>, []) else None)"
| "step s (Message c f now rnd) =
     (if live s c then onMessage now rnd s c f else None)"
| "step s (Closing c) =
     (if readyState s c = OPEN
      then Some (s\<lparr>readyState := (readyState s)(c := CLOSING)\<rparr>, []) else None)"
| "step s (Close c) =
     (if live s c
      then Some (onClose (s\<lparr>readyState := (readyState s)(c := CLOSED)\<rparr>) c) else None)"
| "step s (Sweep now) = Some (sweep now s, [])"

fun run :: "server \<Rightarrow> event list \<Rightarrow> (server \<times> sent list) option" where
  "run s [] = Some (s, [])"
| "run s (e # es) =
     (case step s e of
        None \<Rightarrow> None
      | Some (s', out) \<Rightarrow>
          (case run s' es of
             None \<Rightarrow> None
           | Some (s'', out') \<Rightarrow> Some (s'', out @ out')))"

subsection \<open>Predicates and observations used in the statements\<close>

text \<open>
  The sweeper's condition in the words of the specification: the room has a metadata
  entry, its membership set is absent or empty, and more than the expiry threshold has
  passed since \<open>lastActivity\<close>. It is compared with what \<open>sweep\<close> computes.
\<close>

definition expiredRoom :: "int \<Rightarrow> server \<Rightarrow> string \<Rightarrow> bool" where
  "expiredRoom now s r =
     (case map_of (roomMetadata s) r of
        None \<Rightarrow> False
      | Some m \<Rightarrow> (\<not> hasRoom s r \<or> members s r = []) \<and> now - lastActivity m > expireTime)"

text \<open>An event is a \<open>create-room\<close> or \<open>join-room\<close> frame of connection \<open>c\<close>.\<close>

fun binds :: "conn \<Rightarrow> event \<Rightarrow> bool" where
  "binds c (Message c' (Obj ty rid content sender) now rnd) =
     (c' = c \<and> (ty = JStr ''create-room'' \<or> ty = JStr ''join-room''))"
| "binds c e = False"


text \<open>Membership of a connection over all room codes, and the property of a \<open>Set\<close>
  that it holds a value at most once.\<close>

definition inNoRoom :: "server \<Rightarrow> conn \<Rightarrow> bool" where
  "inNoRoom s c = (\<forall>r. c \<notin> set (members s r))"

definition inAtMostOneRoom :: "server \<Rightarrow> conn \<Rightarrow> bool" where
  "inAtMostOneRoom s c =
     (\<forall>r1 r2. c \<in> set (members s r1) \<and> c \<in> set (members s r2) \<longrightarrow> r1 = r2)"

definition distinctRooms :: "server \<Rightarrow> bool" where
  "distinctRooms s = (\<forall>r. distinct (members s r))"

text \<open>The three inbound frames with the fields the client of this repository sends.\<close>

definition createMsg :: "string \<Rightarrow> frame" where
  "createMsg code = Obj (JStr ''create-room'') (JStr code) JUndefined JUndefined"

definition joinMsg :: "string \<Rightarrow> frame" where
  "joinMsg code = Obj (JStr ''join-room'') (JStr code) JUndefined JUndefined"

definition chatMsg :: "string \<Rightarrow> string \<Rightarrow> string \<Rightarrow> frame" where
  "chatMsg code content sender =
     Obj (JStr ''chat-message'') (JStr code) (JStr content) (JStr sender)"

text \<open>What a run from the initial state leaves behind.\<close>

definition membersAfter :: "event list \<Rightarrow> string \<Rightarrow> conn list option" where
  "membersAfter es r =
     (case run init es of None \<Rightarrow> None | Some (s, out) \<Rightarrow> Some (members s r))"

definition roomIdAfter :: "event list \<Rightarrow> conn \<Rightarrow> string option option" where
  "roomIdAfter es c =
     (case run init es of None \<Rightarrow> None | Some (s, out) \<Rightarrow> Some (roomId s c))"

definition metadataAfter :: "event list \<Rightarrow> string \<Rightarrow> room_meta option option" where
  "metadataAfter es r =
     (case run init es of None \<Rightarrow> None | Some (s, out) \<Rightarrow> Some (map_of (roomMetadata s) r))"

definition sentAfter :: "event list \<Rightarrow> sent list option" where
  "sentAfter es = (case run init es of None \<Rightarrow> None | Some (s, out) \<Rightarrow> Some out)"

text \<open>
  How sockets and rooms hang together in a state: a socket that has not connected has no
  \<open>roomId\<close>; a bound code is never the empty string (so the test \<open>roomId &&\<close> of the
  \<open>close\<close> handler passes); and a socket that has not yet emitted \<open>close\<close> is in the
  membership set of the room it is bound to.
\<close>

definition wellBound :: "server \<Rightarrow> bool" where
  "wellBound s =
     ((\<forall>c. readyState s c = CONNECTING \<longrightarrow> roomId s c = None) \<and>
      (\<forall>c r. roomId s c = Some r \<longrightarrow>
         r \<noteq> [] \<and> (live s c \<longrightarrow> hasRoom s r \<and> c \<in> set (members s r))))"

text \<open>A delivery is a chat message flagged \<open>isOwnMessage = true\<close>.\<close>

definition isOwn :: "sent \<Rightarrow> bool" where
  "isOwn p = (case snd p of ChatMessage content sender own \<Rightarrow> own | _ \<Rightarrow> False)"

subsection \<open>Concrete runs and states\<close>

text \<open>Connection 0 creates a room and chats in it five seconds later.\<close>

definition chatTrace :: "event list" where
  "chatTrace =
     [Connection 0,
      Message 0 (createMsg ''AB12CD'') 0 (\<lambda>n. 0),
      Message 0 (chatMsg ''AB12CD'' ''hi'' ''ann'') 5000 (\<lambda>n. 0)]"

text \<open>Connections 0 and 1 share room \<open>AB12CD\<close>; connection 2 is open and in no room.\<close>

definition lobbyTrace :: "event list" where
  "lobbyTrace =
     [Connection 0, Connection 1, Connection 2,
      Message 0 (createMsg ''AB12CD'') 0 (\<lambda>n. 0),
      Message 1 (joinMsg ''ab12cd'') 10 (\<lambda>n. 0)]"

definition lobby :: server where
  "lobby =
     \<lparr> rooms = [(''AB12CD'', [0, 1])],
       roomMetadata = [(''AB12CD'', \<lparr>created = 0, lastActivity = 10\<rparr>)],
       roomId = (\<lambda>c. None)(0 := Some ''AB12CD'', 1 := Some ''AB12CD''),
       readyState = (\<lambda>c. CONNECTING)(0 := OPEN, 1 := OPEN, 2 := OPEN) \<rparr>"

text \<open>Room \<open>AB12CD\<close> was left by its only member; room \<open>ZZZZZZ\<close> is as old and still
  has connection 1.\<close>

definition sweepTrace :: "event list" where
  "sweepTrace =
     [Connection 0, Connection 1,
      Message 0 (createMsg ''AB12CD'') 0 (\<lambda>n. 0),
      Message 1 (createMsg ''ZZZZZZ'') 0 (\<lambda>n. 0),
      Close 0]"

definition twoRooms :: server where
  "twoRooms =
     \<lparr> rooms = [(''AB12CD'', []), (''ZZZZZZ'', [1])],
       roomMetadata = [(''AB12CD'', \<lparr>created = 0, lastActivity = 0\<rparr>),
                       (''ZZZZZZ'', \<lparr>created = 0, lastActivity = 0\<rparr>)],
       roomId = (\<lambda>c. None)(0 := Some ''AB12CD'', 1 := Some ''ZZZZZZ''),
       readyState = (\<lambda>c. CONNECTING)(1 := OPEN, 0 := CLOSED) \<rparr>"


text \<open>The same, after which connection 1 joins \<open>AAAAAA\<close> and chats there.\<close>

definition staleTrace :: "event list" where
  "staleTrace =
     [Connection 0, Connection 1,
      Message 0 (createMsg ''AAAAAA'') 0 (\<lambda>n. 0),
      Message 0 (createMsg ''BBBBBB'') 1 (\<lambda>n. 0),
      Message 1 (joinMsg ''AAAAAA'') 2 (\<lambda>n. 0),
      Message 1 (chatMsg ''AAAAAA'' ''hi'' ''bob'') 3 (\<lambda>n. 0)]"

text \<open>Connection 2, which never created or joined a room, sends a chat message that
  names the room of connections 0 and 1.\<close>

definition outsiderTrace :: "event list" where
  "outsiderTrace = lobbyTrace @ [Message 2 (chatMsg ''AB12CD'' ''hi'' ''eve'') 20 (\<lambda>n. 0)]"

text \<open>Connections 0 and 1 share room \<open>AAAAAA\<close>, connection 2 is alone in \<open>BBBBBB\<close>.\<close>

definition partyTrace :: "event list" where
  "partyTrace =
     [Connection 0, Connection 1, Connection 2,
      Message 0 (createMsg ''AAAAAA'') 0 (\<lambda>n. 0),
      Message 1 (joinMsg ''aaaaaa'') 1 (\<lambda>n. 0),
      Message 2 (createMsg ''BBBBBB'') 2 (\<lambda>n. 0)]"

definition party :: server where
  "party =
     \<lparr> rooms = [(''AAAAAA'', [0, 1]), (''BBBBBB'', [2])],
       roomMetadata = [(''AAAAAA'', \<lparr>created = 0, lastActivity = 1\<rparr>),
                       (''BBBBBB'', \<lparr>created = 2, lastActivity = 2\<rparr>)],
       roomId = (\<lambda>c. None)(0 := Some ''AAAAAA'', 1 := Some ''AAAAAA'', 2 := Some ''BBBBBB''),
       readyState = (\<lambda>c. CONNECTING)(0 := OPEN, 1 := OPEN, 2 := OPEN) \<rparr>"

text \<open>Two sockets have connected and nothing else has happened.\<close>

definition idleTrace :: "event list" where
  "idleTrace = [Connection 0, Connection 1]"

definition idle :: server where
  "idle = \<lparr> rooms = [], roomMetadata = [], roomId = (\<lambda>c. None),
            readyState = (\<lambda>c. CONNECTING)(0 := OPEN, 1 := OPEN) \<rparr>"

text \<open>Connection 0 is the only member of room \<open>AB12CD\<close>; connection 1 is open.\<close>

definition soloTrace :: "event list" where
  "soloTrace = [Connection 0, Connection 1, Message 0 (createMsg ''AB12CD'') 0 (\<lambda>n. 0)]"

definition solo :: server where
  "solo =
     \<lparr> rooms = [(''AB12CD'', [0])],
       roomMetadata = [(''AB12CD'', \<lparr>created = 0, lastActivity = 0\<rparr>)],
       roomId = (\<lambda>c. None)(0 := Some ''AB12CD''),
       readyState = (\<lambda>c. CONNECTING)(0 := OPEN, 1 := OPEN) \<rparr>"



section \<open>Lemmas about the handlers\<close>

subsection \<open>Sets as lists\<close>

lemma set_add_set [simp]: "set (set_add x xs) = insert x (set xs)"
  by (auto simp: set_add_def)

lemma set_add_distinct [simp]: "distinct xs \<Longrightarrow> distinct (set_add x xs)"
  by (simp add: set_add_def)

lemma set_delete_set [simp]: "set (set_delete x xs) = set xs - {x}"
  by (simp add: set_delete_def)

lemma set_delete_distinct [simp]: "distinct xs \<Longrightarrow> distinct (set_delete x xs)"
  by (simp add: set_delete_def distinct_removeAll)

lemmas look_defs = members_def hasRoom_def hasMetadata_def update_conv' delete_conv'

subsection \<open>What each handler does to the tables\<close>

text \<open>Each handler is summed up by what it does to the lookups \<open>members\<close>, \<open>hasRoom\<close>
  and \<open>map_of (roomMetadata s)\<close>, to the two per-socket fields, and by what it sends.\<close>

lemma rooms_touchJoin [simp]: "rooms (touchJoin now r s) = rooms s"
  by (simp add: touchJoin_def split: option.splits)

lemma readyState_touchJoin [simp]: "readyState (touchJoin now r s) = readyState s"
  by (simp add: touchJoin_def split: option.splits)

lemma roomId_touchJoin [simp]: "roomId (touchJoin now r s) = roomId s"
  by (simp add: touchJoin_def split: option.splits)

lemma meta_touchJoin:
  "map_of (roomMetadata (touchJoin now r s)) r' =
     (if r' = r then map_option (\<lambda>m. m\<lparr>lastActivity := now\<rparr>) (map_of (roomMetadata s) r)
      else map_of (roomMetadata s) r')"
  by (auto simp: touchJoin_def update_conv' split: option.splits)

lemma members_createRoomAs:
  "members (fst (createRoomAs now s c r)) r' = (if r' = r then set_add c (members s r) else members s r')"
  by (simp add: createRoomAs_def Let_def look_defs)

lemma hasRoom_createRoomAs:
  "hasRoom (fst (createRoomAs now s c r)) r' = (r' = r \<or> hasRoom s r')"
  by (simp add: createRoomAs_def Let_def look_defs)

lemma meta_createRoomAs:
  "map_of (roomMetadata (fst (createRoomAs now s c r))) =
     (map_of (roomMetadata s))(r \<mapsto> \<lparr>created = now, lastActivity = now\<rparr>)"
  by (simp add: createRoomAs_def Let_def look_defs)

lemma roomId_createRoomAs:
  "roomId (fst (createRoomAs now s c r)) = (roomId s)(c := Some r)"
  by (simp add: createRoomAs_def Let_def)

lemma readyState_createRoomAs:
  "readyState (fst (createRoomAs now s c r)) = readyState s"
  by (simp add: createRoomAs_def Let_def)

lemma snd_createRoomAs:
  "snd (createRoomAs now s c r) = send s c (RoomCreated r (length (set_add c (members s r))))"
  by (simp add: createRoomAs_def Let_def look_defs send_def)

lemma members_joinRoomAs:
  "members (fst (joinRoomAs now s c r)) r' =
     (if r' = r \<and> (hasRoom s r \<or> hasMetadata s r) then set_add c (members s r) else members s r')"
  by (auto simp add: joinRoomAs_def Let_def look_defs)

lemma hasRoom_joinRoomAs:
  "hasRoom (fst (joinRoomAs now s c r)) r' =
     (r' = r \<and> hasMetadata s r \<or> hasRoom s r')"
  by (auto simp add: joinRoomAs_def Let_def look_defs)

lemma meta_joinRoomAs:
  "map_of (roomMetadata (fst (joinRoomAs now s c r))) r' =
     (if r' = r then map_option (\<lambda>m. m\<lparr>lastActivity := now\<rparr>) (map_of (roomMetadata s) r)
      else map_of (roomMetadata s) r')"
  by (auto simp add: joinRoomAs_def Let_def look_defs meta_touchJoin)

lemma roomId_joinRoomAs:
  "roomId (fst (joinRoomAs now s c r)) =
     (if hasRoom s r \<or> hasMetadata s r then (roomId s)(c := Some r) else roomId s)"
  by (simp add: joinRoomAs_def Let_def)

lemma readyState_joinRoomAs:
  "readyState (fst (joinRoomAs now s c r)) = readyState s"
  by (simp add: joinRoomAs_def Let_def)

lemma snd_joinRoomAs:
  "snd (joinRoomAs now s c r) =
     (if hasRoom s r \<or> hasMetadata s r
      then send s c (JoinedRoom r) @
           forEach_send s (set_add c (members s r))
             (\<lambda>client. UserCountUpdate (length (set_add c (members s r))))
      else send s c (Error ''Room not found''))"
  by (auto simp add: joinRoomAs_def Let_def look_defs send_def forEach_send_def cong: if_cong)

lemma members_onClose:
  "members (fst (onClose s c)) r =
     (if roomId s c = Some r \<and> r \<noteq> [] \<and> hasRoom s r then set_delete c (members s r) else members s r)"
  by (auto simp add: onClose_def Let_def look_defs split: option.splits)

lemma hasRoom_onClose: "hasRoom (fst (onClose s c)) r = hasRoom s r"
  by (auto simp add: onClose_def Let_def look_defs split: option.splits)

lemma roomMetadata_onClose: "roomMetadata (fst (onClose s c)) = roomMetadata s"
  by (auto simp add: onClose_def Let_def split: option.splits)

lemma roomId_onClose: "roomId (fst (onClose s c)) = roomId s"
  by (auto simp add: onClose_def Let_def split: option.splits)

lemma readyState_onClose: "readyState (fst (onClose s c)) = readyState s"
  by (auto simp add: onClose_def Let_def split: option.splits)

lemma snd_onClose:
  "snd (onClose s c) =
     (case roomId s c of
        None \<Rightarrow> []
      | Some r \<Rightarrow>
          if r \<noteq> [] \<and> hasRoom s r \<and> set_delete c (members s r) \<noteq> []
          then forEach_send s (set_delete c (members s r))
                 (\<lambda>client. UserCountUpdate (length (set_delete c (members s r))))
          else [])"
  by (auto simp add: onClose_def Let_def look_defs send_def forEach_send_def split: option.splits)

subsection \<open>The sweep, key by key\<close>

text \<open>The loop body touches the entries of its own key only, so the loop over the keys
  of \<open>roomMetadata\<close> has a pointwise description.\<close>

lemma meta_sweepRoom:
  "map_of (roomMetadata (sweepRoom now k s)) r =
     (if r = k \<and> expiredRoom now s k then None else map_of (roomMetadata s) r)"
  by (auto simp: sweepRoom_def expiredRoom_def Let_def look_defs split: option.splits)

lemma rooms_sweepRoom:
  "map_of (rooms (sweepRoom now k s)) r =
     (if r = k \<and> expiredRoom now s k then None else map_of (rooms s) r)"
  by (auto simp: sweepRoom_def expiredRoom_def Let_def look_defs split: option.splits)

lemma roomId_sweepRoom [simp]: "roomId (sweepRoom now k s) = roomId s"
  by (simp add: sweepRoom_def Let_def split: option.splits)

lemma readyState_sweepRoom [simp]: "readyState (sweepRoom now k s) = readyState s"
  by (simp add: sweepRoom_def Let_def split: option.splits)

lemma expiredRoom_sweepRoom:
  "expiredRoom now (sweepRoom now k s) r = (r \<noteq> k \<and> expiredRoom now s r)"
  unfolding expiredRoom_def [of now "sweepRoom now k s"] hasRoom_def members_def
    meta_sweepRoom rooms_sweepRoom
  by (auto simp: expiredRoom_def hasRoom_def members_def split: option.splits)

lemma fold_sweepRoom:
  "map_of (roomMetadata (fold (sweepRoom now) ks s)) r =
     (if r \<in> set ks \<and> expiredRoom now s r then None else map_of (roomMetadata s) r) \<and>
   map_of (rooms (fold (sweepRoom now) ks s)) r =
     (if r \<in> set ks \<and> expiredRoom now s r then None else map_of (rooms s) r) \<and>
   roomId (fold (sweepRoom now) ks s) = roomId s \<and>
   readyState (fold (sweepRoom now) ks s) = readyState s"
proof (induction ks arbitrary: s)
  case Nil
  then show ?case by simp
next
  case (Cons k ks)
  show ?case
    by (auto simp add: Cons.IH expiredRoom_sweepRoom meta_sweepRoom rooms_sweepRoom)
qed

lemma expiredRoom_key: "expiredRoom now s r \<Longrightarrow> r \<in> fst ` set (roomMetadata s)"
  by (auto simp: expiredRoom_def split: option.splits dest: map_of_SomeD intro: rev_image_eqI)

lemma meta_sweep:
  "map_of (roomMetadata (sweep now s)) r =
     (if expiredRoom now s r then None else map_of (roomMetadata s) r)"
  using expiredRoom_key [of now s r] by (simp add: sweep_def fold_sweepRoom)

lemma rooms_sweep:
  "map_of (rooms (sweep now s)) r =
     (if expiredRoom now s r then None else map_of (rooms s) r)"
  using expiredRoom_key [of now s r] by (simp add: sweep_def fold_sweepRoom)

lemma roomId_sweep [simp]: "roomId (sweep now s) = roomId s"
  by (simp add: sweep_def fold_sweepRoom)

lemma readyState_sweep [simp]: "readyState (sweep now s) = readyState s"
  by (simp add: sweep_def fold_sweepRoom)

lemma members_sweep:
  "members (sweep now s) r = (if expiredRoom now s r then [] else members s r)"
  by (simp add: members_def rooms_sweep)

lemma hasRoom_sweep:
  "hasRoom (sweep now s) r = (hasRoom s r \<and> \<not> expiredRoom now s r)"
  by (simp add: hasRoom_def rooms_sweep)

lemma expiredRoom_members: "expiredRoom now s r \<Longrightarrow> members s r = []"
  by (auto simp: expiredRoom_def members_def hasRoom_def split: option.splits)

lemma members_sweep_eq: "members (sweep now s) r = members s r"
  by (simp add: members_sweep expiredRoom_members)

subsection \<open>One event\<close>

text \<open>A frame leaves the state as it is, or creates, or joins; only \<open>create-room\<close> and
  \<open>join-room\<close> frames of a connection put it into a membership set.\<close>

lemma fst_chatMessage: "fst (chatMessage s c rid content sender) = s"
  by (simp add: chatMessage_def chatMessageIn_def split: jsval.splits option.splits)

lemma chatMessage_state: "chatMessage s c rid content sender = (s', out) \<Longrightarrow> s' = s"
  using fst_chatMessage [of s c rid content sender] by simp

lemma joinRoom_cases:
  "fst (joinRoom now s c rid) = s \<or> (\<exists>r. fst (joinRoom now s c rid) = fst (joinRoomAs now s c r))"
  by (auto simp: joinRoom_def split: jsval.splits)

lemma onMessage_state:
  assumes "onMessage now rnd s c f = Some (s', out)"
  shows "s' = s \<or> (\<exists>r. s' = fst (createRoomAs now s c r)) \<or> (\<exists>r. s' = fst (joinRoomAs now s c r))"
proof (cases f)
  case Malformed
  with assms show ?thesis by (simp add: onMessage_def)
next
  case (Obj ty rid content sender)
  consider "ty = JStr ''create-room''" | "ty \<noteq> JStr ''create-room''" "ty = JStr ''join-room''"
    | "ty \<noteq> JStr ''create-room''" "ty \<noteq> JStr ''join-room''" by blast
  then show ?thesis
  proof cases
    case 1
    with assms Obj obtain r where "createRoomAs now s c r = (s', out)"
      by (auto simp: onMessage_def createRoom_def split: option.splits)
    then have "s' = fst (createRoomAs now s c r)" by simp
    then show ?thesis by blast
  next
    case 2
    with assms Obj have "s' = fst (joinRoom now s c rid)"
      by (auto simp: onMessage_def)
    with joinRoom_cases [of now s c rid] show ?thesis by auto
  next
    case 3
    with assms Obj show ?thesis
      by (auto simp: onMessage_def split: if_splits dest: chatMessage_state)
  qed
qed

lemma onMessage_state_other:
  assumes "onMessage now rnd s c f = Some (s', out)" and "\<not> binds c (Message c f now rnd)"
  shows "s' = s"
proof (cases f)
  case Malformed
  with assms show ?thesis by (simp add: onMessage_def)
next
  case (Obj ty rid content sender)
  with assms show ?thesis
    by (auto simp: onMessage_def split: if_splits dest: chatMessage_state)
qed

lemma step_members_keep:
  assumes "step s e = Some (s', out)" and "\<not> binds c e" and "c \<in> set (members s' r)"
  shows "c \<in> set (members s r)"
proof (cases e)
  case (Connection c')
  with assms show ?thesis by (auto simp: members_def split: if_splits)
next
  case (Message c' f now rnd)
  with assms have om: "onMessage now rnd s c' f = Some (s', out)"
    by (simp split: if_splits)
  show ?thesis
  proof (cases "c' = c")
    case True
    with om assms(2) Message have "s' = s" by (auto dest: onMessage_state_other)
    with assms(3) show ?thesis by simp
  next
    case False
    from onMessage_state [OF om] assms(3) False show ?thesis
      by (auto simp: members_createRoomAs members_joinRoomAs split: if_splits)
  qed
next
  case (Closing c')
  with assms show ?thesis by (auto simp: members_def split: if_splits)
next
  case (Close c')
  with assms have "s' = fst (onClose (s\<lparr>readyState := (readyState s)(c' := CLOSED)\<rparr>) c')"
    by (auto split: if_splits)
  with assms(3) show ?thesis
    by (auto simp: members_onClose split: if_splits) (simp_all add: members_def)
next
  case (Sweep now)
  with assms show ?thesis by (auto simp: members_sweep_eq)
qed

lemma step_members_bind:
  assumes "step s e = Some (s', out)" and "binds c e"
  shows "\<exists>r0. \<forall>r. c \<in> set (members s' r) \<longrightarrow> c \<in> set (members s r) \<or> r = r0"
proof -
  from assms(2) obtain f now rnd where e: "e = Message c f now rnd"
    by (cases "(c, e)" rule: binds.cases) auto
  with assms(1) have om: "onMessage now rnd s c f = Some (s', out)"
    by (simp split: if_splits)
  from onMessage_state [OF om] show ?thesis
    by (auto simp: members_createRoomAs members_joinRoomAs split: if_splits)
qed

subsection \<open>Invariants of runs\<close>

lemma run_one_room_aux:
  assumes "run s es = Some (s', out)"
  shows "(inNoRoom s c \<and> length (filter (binds c) es) = 0 \<longrightarrow> inNoRoom s' c) \<and>
         (inNoRoom s c \<and> length (filter (binds c) es) \<le> 1 \<longrightarrow> inAtMostOneRoom s' c) \<and>
         (inAtMostOneRoom s c \<and> length (filter (binds c) es) = 0 \<longrightarrow> inAtMostOneRoom s' c)"
  using assms
proof (induction es arbitrary: s out)
  case Nil
  then show ?case by (auto simp: inNoRoom_def inAtMostOneRoom_def)
next
  case (Cons e es)
  from Cons.prems obtain s1 out1 out2 where st: "step s e = Some (s1, out1)"
    and rn: "run s1 es = Some (s', out2)"
    by (auto split: option.splits)
  note IH = Cons.IH [OF rn]
  show ?case
  proof (cases "binds c e")
    case True
    from step_members_bind [OF st True] have "inNoRoom s c \<Longrightarrow> inAtMostOneRoom s1 c"
      unfolding inNoRoom_def inAtMostOneRoom_def by metis
    with True IH show ?thesis by auto
  next
    case False
    have "inNoRoom s c \<Longrightarrow> inNoRoom s1 c"
      unfolding inNoRoom_def using step_members_keep [OF st False] by blast
    moreover have "inAtMostOneRoom s c \<Longrightarrow> inAtMostOneRoom s1 c"
      unfolding inAtMostOneRoom_def using step_members_keep [OF st False] by blast
    ultimately show ?thesis using False IH by auto
  qed
qed

lemma step_distinctRooms:
  assumes "step s e = Some (s', out)" and "distinctRooms s"
  shows "distinctRooms s'"
proof (cases e)
  case (Connection c')
  with assms show ?thesis by (auto simp: distinctRooms_def members_def split: if_splits)
next
  case (Message c' f now rnd)
  with assms have om: "onMessage now rnd s c' f = Some (s', out)"
    by (simp split: if_splits)
  from onMessage_state [OF om] assms(2) show ?thesis
    by (auto simp: distinctRooms_def members_createRoomAs members_joinRoomAs)
next
  case (Closing c')
  with assms show ?thesis by (auto simp: distinctRooms_def members_def split: if_splits)
next
  case (Close c')
  with assms have "s' = fst (onClose (s\<lparr>readyState := (readyState s)(c' := CLOSED)\<rparr>) c')"
    by (auto split: if_splits)
  moreover have "members (s\<lparr>readyState := (readyState s)(c' := CLOSED)\<rparr>) = members s"
    by (simp add: members_def fun_eq_iff)
  ultimately show ?thesis using assms(2)
    by (auto simp: distinctRooms_def members_onClose)
next
  case (Sweep now)
  with assms show ?thesis by (auto simp: distinctRooms_def members_sweep_eq)
qed

lemma run_distinctRooms:
  "run s es = Some (s', out) \<Longrightarrow> distinctRooms s \<Longrightarrow> distinctRooms s'"
proof (induction es arbitrary: s out)
  case Nil
  then show ?case by simp
next
  case (Cons e es)
  from Cons.prems obtain s1 out1 out2 where st: "step s e = Some (s1, out1)"
    and rn: "run s1 es = Some (s', out2)"
    by (auto split: option.splits)
  from step_distinctRooms [OF st Cons.prems(2)] Cons.IH [OF rn] show ?case by blast
qed




lemma init_distinctRooms: "distinctRooms init"
  by (simp add: distinctRooms_def members_def init_def)

lemma init_inNoRoom: "inNoRoom init c"
  by (simp add: inNoRoom_def members_def init_def)

subsection \<open>Sending\<close>

lemma forEach_send_iff:
  "(c, m) \<in> set (forEach_send s cs f) \<longleftrightarrow> c \<in> set cs \<and> readyState s c = OPEN \<and> m = f c"
  by (auto simp: forEach_send_def send_def split: if_splits)

text \<open>The definitions a concrete run unfolds to.\<close>

lemmas handler_defs = createMsg_def joinMsg_def chatMsg_def init_def live_def onMessage_def
  createRoom_def chooseRoomId_def createRoomAs_def joinRoom_def joinRoomAs_def touchJoin_def
  chatMessage_def chatMessageIn_def onClose_def send_def forEach_send_def
  members_def hasRoom_def hasMetadata_def set_add_def set_delete_def Let_def
  toUpperCase_def upper_char_def

subsection \<open>The concrete states are reached by the concrete runs\<close>

lemma lobby_reachable:
  "run init lobbyTrace =
     Some (lobby, [(0, RoomCreated ''AB12CD'' 1), (1, JoinedRoom ''AB12CD''),
                   (0, UserCountUpdate 2), (1, UserCountUpdate 2)])"
  by (simp add: lobbyTrace_def lobby_def handler_defs)

lemma twoRooms_reachable:
  "run init sweepTrace =
     Some (twoRooms, [(0, RoomCreated ''AB12CD'' 1), (1, RoomCreated ''ZZZZZZ'' 1)])"
  by (simp add: sweepTrace_def twoRooms_def handler_defs)

lemma party_reachable:
  "run init partyTrace =
     Some (party, [(0, RoomCreated ''AAAAAA'' 1), (1, JoinedRoom ''AAAAAA''),
                   (0, UserCountUpdate 2), (1, UserCountUpdate 2),
                   (2, RoomCreated ''BBBBBB'' 1)])"
  by (simp add: partyTrace_def party_def handler_defs)

lemma idle_reachable: "run init idleTrace = Some (idle, [])"
  by (simp add: idleTrace_def idle_def init_def)

lemma solo_reachable: "run init soloTrace = Some (solo, [(0, RoomCreated ''AB12CD'' 1)])"
  by (simp add: soloTrace_def solo_def handler_defs)


subsection \<open>Sockets and the rooms they are bound to\<close>

text \<open>Room codes that get bound are never empty: an explicit code is a non-empty string
  in upper case, a generated one has six characters.\<close>

lemma generateShortCode_nonempty: "generateShortCode rnd k \<noteq> []"
  by (simp add: generateShortCode_def)

lemma uniqueCode_generated:
  "uniqueCode s rnd k = Some r \<Longrightarrow> \<exists>j. r = generateShortCode rnd j"
proof (induction rule: uniqueCode.raw_induct [rotated 1, consumes 1])
  case (1 uniqueCode s rnd k r)
  then show ?case by (auto split: if_splits)
qed

lemma toUpperCase_nonempty: "str \<noteq> [] \<Longrightarrow> toUpperCase str \<noteq> []"
  by (simp add: toUpperCase_def)

lemma chooseRoomId_nonempty: "chooseRoomId s rnd rid = Some r \<Longrightarrow> r \<noteq> []"
  by (auto simp: chooseRoomId_def toUpperCase_nonempty generateShortCode_nonempty
      split: jsval.splits if_splits dest!: uniqueCode_generated)

lemma onMessage_state_nonempty:
  assumes "onMessage now rnd s c f = Some (s', out)"
  shows "s' = s \<or> (\<exists>r. r \<noteq> [] \<and> s' = fst (createRoomAs now s c r)) \<or>
         (\<exists>r. r \<noteq> [] \<and> s' = fst (joinRoomAs now s c r))"
proof (cases f)
  case Malformed
  with assms show ?thesis by (simp add: onMessage_def)
next
  case (Obj ty rid content sender)
  consider "ty = JStr ''create-room''" | "ty \<noteq> JStr ''create-room''" "ty = JStr ''join-room''"
    | "ty \<noteq> JStr ''create-room''" "ty \<noteq> JStr ''join-room''" by blast
  then show ?thesis
  proof cases
    case 1
    with assms Obj obtain r where "chooseRoomId s rnd rid = Some r"
      and "createRoomAs now s c r = (s', out)"
      by (auto simp: onMessage_def createRoom_def split: option.splits)
    then have "r \<noteq> []" and "s' = fst (createRoomAs now s c r)"
      by (simp_all add: chooseRoomId_nonempty)
    then show ?thesis by blast
  next
    case 2
    with assms Obj have j: "s' = fst (joinRoom now s c rid)"
      by (auto simp: onMessage_def)
    show ?thesis
    proof (cases "\<exists>str. rid = JStr str \<and> str \<noteq> []")
      case True
      then obtain str where "rid = JStr str" "str \<noteq> []" by blast
      with j have "s' = fst (joinRoomAs now s c (toUpperCase str))" "toUpperCase str \<noteq> []"
        by (simp_all add: joinRoom_def toUpperCase_nonempty)
      then show ?thesis by blast
    next
      case False
      with j have "s' = s" by (auto simp: joinRoom_def split: jsval.splits)
      then show ?thesis by simp
    qed
  next
    case 3
    with assms Obj show ?thesis
      by (auto simp: onMessage_def split: if_splits dest: chatMessage_state)
  qed
qed

lemma live_createRoomAs: "live (fst (createRoomAs now s c r)) = live s"
  by (simp add: live_def fun_eq_iff readyState_createRoomAs)

lemma live_joinRoomAs: "live (fst (joinRoomAs now s c r)) = live s"
  by (simp add: live_def fun_eq_iff readyState_joinRoomAs)

lemma wellBound_createRoomAs:
  assumes "wellBound s" "live s c" "r \<noteq> []"
  shows "wellBound (fst (createRoomAs now s c r))"
  using assms unfolding wellBound_def
  by (auto simp: live_createRoomAs readyState_createRoomAs roomId_createRoomAs
      hasRoom_createRoomAs members_createRoomAs live_def)

lemma wellBound_joinRoomAs:
  assumes "wellBound s" "live s c" "r \<noteq> []"
  shows "wellBound (fst (joinRoomAs now s c r))"
  using assms unfolding wellBound_def
  by (auto simp: live_joinRoomAs readyState_joinRoomAs roomId_joinRoomAs
      hasRoom_joinRoomAs members_joinRoomAs live_def)

lemma wellBound_onClose:
  assumes "wellBound s" "live s c"
  shows "wellBound (fst (onClose (s\<lparr>readyState := (readyState s)(c := CLOSED)\<rparr>) c))"
proof -
  let ?s1 = "s\<lparr>readyState := (readyState s)(c := CLOSED)\<rparr>"
  have m: "members ?s1 = members s" "hasRoom ?s1 = hasRoom s"
    by (simp_all add: members_def hasRoom_def fun_eq_iff)
  show ?thesis
    using assms unfolding wellBound_def
    by (auto simp: readyState_onClose roomId_onClose hasRoom_onClose members_onClose m live_def)
qed

lemma member_not_expired: "c \<in> set (members s r) \<Longrightarrow> \<not> expiredRoom now s r"
  using expiredRoom_members [of now s r] by auto

lemma wellBound_sweep:
  assumes "wellBound s"
  shows "wellBound (sweep now s)"
  using assms unfolding wellBound_def
  by (auto simp: live_def hasRoom_sweep members_sweep_eq dest: member_not_expired)

lemma members_readyState_update: "members (s\<lparr>readyState := g\<rparr>) = members s"
  by (simp add: members_def fun_eq_iff)

lemma hasRoom_readyState_update: "hasRoom (s\<lparr>readyState := g\<rparr>) = hasRoom s"
  by (simp add: hasRoom_def fun_eq_iff)

lemma wellBound_Connection:
  assumes "wellBound s" "readyState s c = CONNECTING"
  shows "wellBound (s\<lparr>readyState := (readyState s)(c := OPEN)\<rparr>)"
  using assms unfolding wellBound_def
  by (auto simp: live_def members_readyState_update hasRoom_readyState_update)

lemma wellBound_Closing:
  assumes "wellBound s" "readyState s c = OPEN"
  shows "wellBound (s\<lparr>readyState := (readyState s)(c := CLOSING)\<rparr>)"
  using assms unfolding wellBound_def
  by (auto simp: live_def members_readyState_update hasRoom_readyState_update)

lemma step_wellBound:
  assumes "step s e = Some (s', out)" and "wellBound s"
  shows "wellBound s'"
proof (cases e)
  case (Connection c')
  with assms show ?thesis by (auto simp: wellBound_Connection split: if_splits)
next
  case (Message c' f now rnd)
  with assms have l: "live s c'" and om: "onMessage now rnd s c' f = Some (s', out)"
    by (simp_all split: if_splits)
  from onMessage_state_nonempty [OF om] assms(2) l show ?thesis
    by (auto simp: wellBound_createRoomAs wellBound_joinRoomAs)
next
  case (Closing c')
  with assms show ?thesis by (auto simp: wellBound_Closing split: if_splits)
next
  case (Close c')
  with assms have l: "live s c'"
    and "s' = fst (onClose (s\<lparr>readyState := (readyState s)(c' := CLOSED)\<rparr>) c')"
    by (auto split: if_splits)
  with assms(2) show ?thesis by (simp add: wellBound_onClose)
next
  case (Sweep now)
  with assms show ?thesis by (auto simp: wellBound_sweep)
qed

lemma run_wellBound:
  "run s es = Some (s', out) \<Longrightarrow> wellBound s \<Longrightarrow> wellBound s'"
proof (induction es arbitrary: s out)
  case Nil
  then show ?case by simp
next
  case (Cons e es)
  from Cons.prems obtain s1 out1 out2 where st: "step s e = Some (s1, out1)"
    and rn: "run s1 es = Some (s', out2)"
    by (auto split: option.splits)
  from step_wellBound [OF st Cons.prems(2)] Cons.IH [OF rn] show ?case by blast
qed

lemma init_wellBound: "wellBound init"
  by (simp add: wellBound_def init_def)

subsection \<open>The handler on well-formed frames\<close>

lemma chat_out:
  "onMessage now rnd s socket (Obj (JStr ''chat-message'') (JStr r) (JStr ct) (JStr sn)) =
     Some (s, if hasRoom s (toUpperCase r)
              then forEach_send s (members s (toUpperCase r))
                     (\<lambda>client. ChatMessage ct sn (client = socket))
              else send s socket (Error ''Room not found''))"
  by (auto simp: onMessage_def chatMessage_def chatMessageIn_def hasRoom_def members_def
      split: option.splits)

subsection \<open>Counting the deliveries flagged as the sender's own\<close>

lemma forEach_send_Nil: "forEach_send s [] f = []"
  by (simp add: forEach_send_def)

lemma forEach_send_Cons: "forEach_send s (c # cs) f = send s c (f c) @ forEach_send s cs f"
  by (simp add: forEach_send_def)

lemma isOwn_ChatMessage: "isOwn (c, ChatMessage x y b) = b"
  by (simp add: isOwn_def)

lemma own_count_absent:
  "socket \<notin> set cs \<Longrightarrow>
   filter isOwn (forEach_send s cs (\<lambda>client. ChatMessage ct sn (client = socket))) = []"
  by (induction cs) (auto simp: forEach_send_Nil forEach_send_Cons send_def isOwn_ChatMessage)

lemma own_count:
  "distinct cs \<Longrightarrow>
   length (filter isOwn (forEach_send s cs (\<lambda>client. ChatMessage ct sn (client = socket)))) =
     (if socket \<in> set cs \<and> readyState s socket = OPEN then 1 else 0)"
proof (induction cs)
  case Nil
  then show ?case by (simp add: forEach_send_Nil)
next
  case (Cons c cs)
  show ?case
  proof (cases "c = socket")
    case True
    with Cons.prems have "socket \<notin> set cs" by simp
    from own_count_absent [OF this, of s ct sn] True show ?thesis
      by (simp add: forEach_send_Cons send_def isOwn_ChatMessage)
  next
    case False
    with Cons show ?thesis
      by (simp add: forEach_send_Cons send_def isOwn_ChatMessage)
  qed
qed

subsection \<open>Further facts used by the claims\<close>

lemma join_out:
  "str \<noteq> [] \<Longrightarrow>
   onMessage now rnd s socket (Obj (JStr ''join-room'') (JStr str) content sender) =
     Some (joinRoomAs now s socket (toUpperCase str))"
  by (simp add: onMessage_def joinRoom_def)

lemma create_out:
  "str \<noteq> [] \<Longrightarrow>
   onMessage now rnd s socket (Obj (JStr ''create-room'') (JStr str) content sender) =
     Some (createRoomAs now s socket (toUpperCase str))"
  by (simp add: onMessage_def createRoom_def chooseRoomId_def)

lemma keys_createRoomAs:
  "distinct (map fst (rooms s)) \<Longrightarrow> distinct (map fst (rooms (fst (createRoomAs now s c r))))"
  by (simp add: createRoomAs_def Let_def distinct_update)

lemma window_not_expired:
  "\<forall>m. map_of (roomMetadata s) r = Some m \<longrightarrow> now - lastActivity m \<le> expireTime \<Longrightarrow>
   \<not> expiredRoom now s r"
  by (auto simp: expiredRoom_def split: option.splits)

section \<open>The claims\<close>

subsection \<open>C1: how many rooms hold a connection\<close>




subsection \<open>C2: chat messages and \<open>lastActivity\<close>\<close>

text \<open>
  C2 (as stated): every successful chat-message delivery sets the room's \<open>lastActivity\<close>
  to the delivery time. The \<open>chat-message\<close> case never writes \<open>roomMetadata\<close>: in the run
  below the room is created at time 0, the chat is delivered at time 5000, and
  \<open>lastActivity\<close> is still 0.
\<close>

theorem chat_touches_activity_counterexample:
  "sentAfter chatTrace =
     Some [(0, RoomCreated ''AB12CD'' 1), (0, ChatMessage ''hi'' ''ann'' True)] \<and>
   metadataAfter chatTrace ''AB12CD'' = Some (Some \<lparr>created = 0, lastActivity = 0\<rparr>) \<and>
   metadataAfter chatTrace ''AB12CD'' \<noteq> Some (Some \<lparr>created = 0, lastActivity = 5000\<rparr>)"
  by (simp add: sentAfter_def metadataAfter_def chatTrace_def handler_defs)

text \<open>
  C2 (amended): a \<open>chat-message\<close> frame, delivered or not, leaves the whole server state
  unchanged, \<open>roomMetadata\<close> and with it every \<open>lastActivity\<close> included; the handler
  only sends.
\<close>

theorem chat_leaves_state:
  "onMessage now rnd s socket (Obj (JStr ''chat-message'') rid content sender) =
     Some (s, snd (chatMessage s socket rid content sender))"
  by (simp add: onMessage_def prod_eq_iff fst_chatMessage)

subsection \<open>C3: chat isolation\<close>

text \<open>
  C3 (as stated): a chat message sent in room A never reaches a connection whose bound
  room is B, B different from A. Connection 0 below is bound to \<open>BBBBBB\<close> and still in
  the membership set of \<open>AAAAAA\<close> (see C1); the chat message of connection 1 in
  \<open>AAAAAA\<close> is delivered to it.
\<close>

theorem chat_isolation_counterexample:
  "roomIdAfter staleTrace 0 = Some (Some ''BBBBBB'') \<and>
   membersAfter staleTrace ''AAAAAA'' = Some [0, 1] \<and>
   sentAfter staleTrace =
     Some [(0, RoomCreated ''AAAAAA'' 1), (0, RoomCreated ''BBBBBB'' 1),
           (1, JoinedRoom ''AAAAAA''), (0, UserCountUpdate 2), (1, UserCountUpdate 2),
           (0, ChatMessage ''hi'' ''bob'' False), (1, ChatMessage ''hi'' ''bob'' True)]"
  by (simp add: membersAfter_def roomIdAfter_def sentAfter_def staleTrace_def handler_defs)

text \<open>
  C3 (amended): in every state the server reaches, the recipients of a chat message that
  names room A are members of A's membership set with an open socket, and nobody else;
  a connection bound to another room B that has sent at most one \<open>create-room\<close> or
  \<open>join-room\<close> frame never receives it.
\<close>

theorem chat_isolation:
  assumes "run init es = Some (s, out0)"
    and "onMessage now rnd s socket (Obj (JStr ''chat-message'') (JStr r) (JStr ct) (JStr sn))
           = Some (s', out)"
  shows "(\<forall>c x y b. (c, ChatMessage x y b) \<in> set out \<longrightarrow>
            c \<in> set (members s (toUpperCase r)) \<and> readyState s c = OPEN) \<and>
         (\<forall>c B. length (filter (binds c) es) \<le> 1 \<and> roomId s c = Some B \<and> B \<noteq> toUpperCase r \<longrightarrow>
            (\<forall>x y b. (c, ChatMessage x y b) \<notin> set out))"
proof -
  from assms(2) have out: "out = (if hasRoom s (toUpperCase r)
              then forEach_send s (members s (toUpperCase r))
                     (\<lambda>client. ChatMessage ct sn (client = socket))
              else send s socket (Error ''Room not found''))"
    by (auto simp add: chat_out)
  have 1: "\<forall>c x y b. (c, ChatMessage x y b) \<in> set out \<longrightarrow>
            c \<in> set (members s (toUpperCase r)) \<and> readyState s c = OPEN"
    by (auto simp: out forEach_send_iff send_def split: if_splits)
  have wb: "wellBound s"
    using run_wellBound [OF assms(1) init_wellBound] .
  have 2: "\<forall>x y b. (c, ChatMessage x y b) \<notin> set out"
    if h: "length (filter (binds c) es) \<le> 1" "roomId s c = Some B" "B \<noteq> toUpperCase r" for c B
  proof (intro allI notI)
    fix x y b
    assume "(c, ChatMessage x y b) \<in> set out"
    with 1 have m: "c \<in> set (members s (toUpperCase r))" and o: "readyState s c = OPEN"
      by blast+
    from wb h(2) o have "c \<in> set (members s B)"
      by (simp add: wellBound_def live_def)
    moreover from run_one_room_aux [OF assms(1), of c] init_inNoRoom [of c] h(1)
    have "inAtMostOneRoom s c" by blast
    ultimately show False using m h(3) unfolding inAtMostOneRoom_def by blast
  qed
  from 1 2 show ?thesis by blast
qed

theorem chat_isolation_witness:
  "run init partyTrace \<noteq> None \<and>
   length (filter (binds 2) partyTrace) \<le> 1 \<and>
   roomId party 2 = Some ''BBBBBB'' \<and> ''BBBBBB'' \<noteq> toUpperCase ''AAAAAA'' \<and>
   onMessage 5 (\<lambda>n. 0) party 0 (chatMsg ''AAAAAA'' ''hi'' ''ann'') =
     Some (party, [(0, ChatMessage ''hi'' ''ann'' True), (1, ChatMessage ''hi'' ''ann'' False)]) \<and>
   members party (toUpperCase ''AAAAAA'') = [0, 1] \<and>
   readyState party 0 = OPEN \<and> readyState party 1 = OPEN \<and>
   (\<forall>x y b. (2, ChatMessage x y b) \<notin>
      set [(0, ChatMessage ''hi'' ''ann'' True), (1 :: nat, ChatMessage ''hi'' ''ann'' False)])"
proof -
  have b: "length (filter (binds 2) partyTrace) \<le> 1"
    by (simp add: partyTrace_def createMsg_def joinMsg_def)
  have r: "roomId party 2 = Some ''BBBBBB''" "''BBBBBB'' \<noteq> toUpperCase ''AAAAAA''"
    "members party (toUpperCase ''AAAAAA'') = [0, 1]"
    "readyState party 0 = OPEN" "readyState party 1 = OPEN"
    by (simp_all add: party_def toUpperCase_def upper_char_def members_def)
  have o: "onMessage 5 (\<lambda>n. 0) party 0
             (Obj (JStr ''chat-message'') (JStr ''AAAAAA'') (JStr ''hi'') (JStr ''ann'')) =
     Some (party, [(0, ChatMessage ''hi'' ''ann'' True), (1, ChatMessage ''hi'' ''ann'' False)])"
    by (simp add: chat_out) (simp add: party_def handler_defs)
  from chat_isolation [OF party_reachable o] b r o party_reachable
  show ?thesis by (simp add: chatMsg_def)
qed

subsection \<open>C4: the \<open>isOwnMessage\<close> flag\<close>

text \<open>
  C4 (as stated): for every broadcast chat message exactly one recipient, the sender,
  gets \<open>isOwnMessage = true\<close>. The handler does not ask whether the sender is in the
  room: connection 2 is in no room, its message to \<open>AB12CD\<close> reaches both members, and
  both deliveries carry \<open>false\<close>.
\<close>

theorem self_flag_counterexample:
  "membersAfter outsiderTrace ''AB12CD'' = Some [0, 1] \<and>
   roomIdAfter outsiderTrace 2 = Some None \<and>
   sentAfter outsiderTrace =
     Some [(0, RoomCreated ''AB12CD'' 1), (1, JoinedRoom ''AB12CD''),
           (0, UserCountUpdate 2), (1, UserCountUpdate 2),
           (0, ChatMessage ''hi'' ''eve'' False), (1, ChatMessage ''hi'' ''eve'' False)]"
  by (simp add: membersAfter_def roomIdAfter_def sentAfter_def outsiderTrace_def lobbyTrace_def
      handler_defs)

text \<open>
  C4 (amended): in every state the server reaches, each delivery of a chat message
  carries \<open>isOwnMessage = true\<close> exactly when its recipient is the sending socket, so
  every other recipient gets \<open>false\<close>; the number of deliveries flagged \<open>true\<close> is one
  when the sender is a member of the named room and its socket is open, and zero
  otherwise.
\<close>

theorem self_flag:
  assumes "run init es = Some (s, out0)"
    and "onMessage now rnd s socket (Obj (JStr ''chat-message'') (JStr r) (JStr ct) (JStr sn))
           = Some (s', out)"
  shows "(\<forall>c x y b. (c, ChatMessage x y b) \<in> set out \<longrightarrow> b = (c = socket)) \<and>
         length (filter isOwn out) =
           (if socket \<in> set (members s (toUpperCase r)) \<and> readyState s socket = OPEN
            then 1 else 0)"
proof -
  from assms(2) have out: "out = (if hasRoom s (toUpperCase r)
              then forEach_send s (members s (toUpperCase r))
                     (\<lambda>client. ChatMessage ct sn (client = socket))
              else send s socket (Error ''Room not found''))"
    by (auto simp add: chat_out)
  have d: "distinct (members s (toUpperCase r))"
    using run_distinctRooms [OF assms(1) init_distinctRooms] by (simp add: distinctRooms_def)
  have 1: "\<forall>c x y b. (c, ChatMessage x y b) \<in> set out \<longrightarrow> b = (c = socket)"
    by (auto simp: out forEach_send_iff send_def split: if_splits)
  have 2: "length (filter isOwn out) =
           (if socket \<in> set (members s (toUpperCase r)) \<and> readyState s socket = OPEN
            then 1 else 0)"
  proof (cases "hasRoom s (toUpperCase r)")
    case True
    with out own_count [OF d] show ?thesis by simp
  next
    case False
    then have "members s (toUpperCase r) = []" by (simp add: members_def hasRoom_def)
    with False out show ?thesis by (simp add: send_def isOwn_def)
  qed
  from 1 2 show ?thesis by blast
qed

theorem self_flag_witness:
  "run init lobbyTrace \<noteq> None \<and>
   onMessage 20 (\<lambda>n. 0) lobby 0 (chatMsg ''AB12CD'' ''hi'' ''ann'') =
     Some (lobby, [(0, ChatMessage ''hi'' ''ann'' True), (1, ChatMessage ''hi'' ''ann'' False)]) \<and>
   0 \<in> set (members lobby (toUpperCase ''AB12CD'')) \<and> readyState lobby 0 = OPEN \<and>
   length (filter isOwn [(0, ChatMessage ''hi'' ''ann'' True), (1, ChatMessage ''hi'' ''ann'' False)]) = 1"
proof -
  have o: "onMessage 20 (\<lambda>n. 0) lobby 0
             (Obj (JStr ''chat-message'') (JStr ''AB12CD'') (JStr ''hi'') (JStr ''ann'')) =
     Some (lobby, [(0, ChatMessage ''hi'' ''ann'' True), (1, ChatMessage ''hi'' ''ann'' False)])"
    by (simp add: chat_out) (simp add: lobby_def handler_defs)
  have r: "0 \<in> set (members lobby (toUpperCase ''AB12CD''))" "readyState lobby 0 = OPEN"
    by (simp_all add: lobby_def toUpperCase_def upper_char_def members_def)
  from self_flag [OF lobby_reachable o] r o lobby_reachable
  show ?thesis by (simp add: chatMsg_def)
qed

subsection \<open>C5: \<open>join-room\<close> and unknown codes\<close>

text \<open>
  C5: a \<open>join-room\<close> frame with a non-empty string code (the frames that pass the
  handler's validation) is answered for the upper-cased code. The handler returns. If a
  membership set or a metadata entry exists for that code, the socket is added to the
  set and bound to the code, and the frames sent are \<open>joined-room\<close> to the joiner
  followed by the user-count broadcast; otherwise the state is unchanged and the only
  frame is the error \<open>Room not found\<close> to the joiner. With the joiner's socket open, the
  error is sent if and only if neither table has the code, \<open>joined-room\<close> if and only
  if one has, and no error goes to anyone else.
\<close>

theorem join_not_found_iff:
  assumes "str \<noteq> []"
  shows "\<exists>s' out.
     onMessage now rnd s socket (Obj (JStr ''join-room'') (JStr str) content sender)
       = Some (s', out) \<and>
     (if hasRoom s (toUpperCase str) \<or> hasMetadata s (toUpperCase str)
      then members s' (toUpperCase str) = set_add socket (members s (toUpperCase str)) \<and>
           socket \<in> set (members s' (toUpperCase str)) \<and>
           roomId s' socket = Some (toUpperCase str) \<and>
           out = send s socket (JoinedRoom (toUpperCase str)) @
                 forEach_send s (members s' (toUpperCase str))
                   (\<lambda>client. UserCountUpdate (length (members s' (toUpperCase str))))
      else s' = s \<and> out = send s socket (Error ''Room not found'')) \<and>
     (readyState s socket = OPEN \<longrightarrow>
        ((socket, Error ''Room not found'') \<in> set out \<longleftrightarrow>
           \<not> hasRoom s (toUpperCase str) \<and> \<not> hasMetadata s (toUpperCase str)) \<and>
        ((socket, JoinedRoom (toUpperCase str)) \<in> set out \<longleftrightarrow>
           hasRoom s (toUpperCase str) \<or> hasMetadata s (toUpperCase str)) \<and>
        (\<forall>c m. (c, Error m) \<in> set out \<longrightarrow> c = socket))"
proof -
  let ?U = "toUpperCase str"
  let ?s' = "fst (joinRoomAs now s socket ?U)"
  let ?out = "snd (joinRoomAs now s socket ?U)"
  have om: "onMessage now rnd s socket (Obj (JStr ''join-room'') (JStr str) content sender)
       = Some (?s', ?out)"
    using assms by (simp add: join_out)
  have a: "if hasRoom s ?U \<or> hasMetadata s ?U
      then members ?s' ?U = set_add socket (members s ?U) \<and>
           socket \<in> set (members ?s' ?U) \<and>
           roomId ?s' socket = Some ?U \<and>
           ?out = send s socket (JoinedRoom ?U) @
                 forEach_send s (members ?s' ?U)
                   (\<lambda>client. UserCountUpdate (length (members ?s' ?U)))
      else ?s' = s \<and> ?out = send s socket (Error ''Room not found'')"
    by (simp add: members_joinRoomAs roomId_joinRoomAs snd_joinRoomAs)
       (simp add: joinRoomAs_def)
  have b: "readyState s socket = OPEN \<longrightarrow>
        ((socket, Error ''Room not found'') \<in> set ?out \<longleftrightarrow>
           \<not> hasRoom s ?U \<and> \<not> hasMetadata s ?U) \<and>
        ((socket, JoinedRoom ?U) \<in> set ?out \<longleftrightarrow> hasRoom s ?U \<or> hasMetadata s ?U) \<and>
        (\<forall>c m. (c, Error m) \<in> set ?out \<longrightarrow> c = socket)"
    by (auto simp: snd_joinRoomAs send_def forEach_send_iff)
  from om a b show ?thesis by blast
qed

theorem join_not_found_iff_witness:
  "''ab12cd'' \<noteq> [] \<and> readyState lobby 2 = OPEN \<and>
   toUpperCase ''ab12cd'' = ''AB12CD'' \<and> hasRoom lobby ''AB12CD'' \<and>
   \<not> hasRoom lobby (toUpperCase ''qqqqqq'') \<and> \<not> hasMetadata lobby (toUpperCase ''qqqqqq'') \<and>
   onMessage 30 (\<lambda>n. 0) lobby 2 (joinMsg ''qqqqqq'') = Some (lobby, [(2, Error ''Room not found'')]) \<and>
   map_option snd (onMessage 30 (\<lambda>n. 0) lobby 2 (joinMsg ''ab12cd'')) =
     Some [(2, JoinedRoom ''AB12CD''), (0, UserCountUpdate 3), (1, UserCountUpdate 3),
           (2, UserCountUpdate 3)]"
proof -
  have n: "''ab12cd'' \<noteq> []" "''qqqqqq'' \<noteq> []" by simp_all
  have u: "toUpperCase ''ab12cd'' = ''AB12CD''" "toUpperCase ''qqqqqq'' = ''QQQQQQ''"
    by (simp_all add: toUpperCase_def upper_char_def)
  have h: "hasRoom lobby ''AB12CD''" "\<not> hasRoom lobby ''QQQQQQ''" "\<not> hasMetadata lobby ''QQQQQQ''"
    "readyState lobby 2 = OPEN" "members lobby ''AB12CD'' = [0, 1]"
    "readyState lobby 0 = OPEN" "readyState lobby 1 = OPEN"
    by (simp_all add: lobby_def hasRoom_def hasMetadata_def members_def)
  from join_not_found_iff [OF n(1), of 30 "\<lambda>n. 0" lobby 2 JUndefined JUndefined]
    join_not_found_iff [OF n(2), of 30 "\<lambda>n. 0" lobby 2 JUndefined JUndefined]
  show ?thesis
    unfolding u joinMsg_def using h n
    by (auto simp: send_def forEach_send_def set_add_def)
qed

subsection \<open>C6: creating the same room twice\<close>

text \<open>
  C6: two \<open>create-room\<close> frames with the same explicit code (up to letter case), from
  connections X and Y, both return; afterwards the room table has the code's entry and
  otherwise the entries it had (no key twice), every other membership set is as before,
  the one set under the code holds the earlier members, X and Y, both are bound to the
  code, and the \<open>userCount\<close> of each \<open>room-created\<close> answer is the size of that set at
  the time: for the second it is the number of distinct members in all.
\<close>

theorem create_twice_one_room:
  assumes "str1 \<noteq> []" and "str2 \<noteq> []" and "toUpperCase str2 = toUpperCase str1"
  shows "\<exists>s1 out1 s2 out2.
     onMessage now1 rnd1 s X (Obj (JStr ''create-room'') (JStr str1) ct1 sn1) = Some (s1, out1) \<and>
     onMessage now2 rnd2 s1 Y (Obj (JStr ''create-room'') (JStr str2) ct2 sn2) = Some (s2, out2) \<and>
     (\<forall>r. hasRoom s2 r = (r = toUpperCase str1 \<or> hasRoom s r)) \<and>
     (\<forall>r. r \<noteq> toUpperCase str1 \<longrightarrow> members s2 r = members s r) \<and>
     (distinct (map fst (rooms s)) \<longrightarrow> distinct (map fst (rooms s2))) \<and>
     set (members s2 (toUpperCase str1)) = set (members s (toUpperCase str1)) \<union> {X, Y} \<and>
     roomId s2 X = Some (toUpperCase str1) \<and> roomId s2 Y = Some (toUpperCase str1) \<and>
     out1 = send s X (RoomCreated (toUpperCase str1) (length (members s1 (toUpperCase str1)))) \<and>
     out2 = send s Y (RoomCreated (toUpperCase str1) (length (members s2 (toUpperCase str1)))) \<and>
     (distinct (members s (toUpperCase str1)) \<longrightarrow>
        length (members s2 (toUpperCase str1)) = card (set (members s (toUpperCase str1)) \<union> {X, Y}))"
proof -
  let ?U = "toUpperCase str1"
  let ?s1 = "fst (createRoomAs now1 s X ?U)"
  let ?s2 = "fst (createRoomAs now2 ?s1 Y ?U)"
  have o1: "onMessage now1 rnd1 s X (Obj (JStr ''create-room'') (JStr str1) ct1 sn1)
              = Some (?s1, snd (createRoomAs now1 s X ?U))"
    using assms(1) by (simp add: create_out)
  have o2: "onMessage now2 rnd2 ?s1 Y (Obj (JStr ''create-room'') (JStr str2) ct2 sn2)
              = Some (?s2, snd (createRoomAs now2 ?s1 Y ?U))"
    using assms(2,3) by (simp add: create_out)
  have m2: "members ?s2 ?U = set_add Y (set_add X (members s ?U))"
    by (simp add: members_createRoomAs)
  have sd: "send ?s1 = send s"
    by (simp add: send_def fun_eq_iff readyState_createRoomAs)
  have c: "distinct (members s ?U) \<longrightarrow>
        length (members ?s2 ?U) = card (set (members s ?U) \<union> {X, Y})"
  proof
    assume "distinct (members s ?U)"
    then have "distinct (members ?s2 ?U)" by (simp add: m2)
    from distinct_card [OF this] show "length (members ?s2 ?U) = card (set (members s ?U) \<union> {X, Y})"
      by (simp add: m2 insert_commute)
  qed
  have rest: "(\<forall>r. hasRoom ?s2 r = (r = ?U \<or> hasRoom s r)) \<and>
     (\<forall>r. r \<noteq> ?U \<longrightarrow> members ?s2 r = members s r) \<and>
     (distinct (map fst (rooms s)) \<longrightarrow> distinct (map fst (rooms ?s2))) \<and>
     set (members ?s2 ?U) = set (members s ?U) \<union> {X, Y} \<and>
     roomId ?s2 X = Some ?U \<and> roomId ?s2 Y = Some ?U \<and>
     snd (createRoomAs now1 s X ?U) = send s X (RoomCreated ?U (length (members ?s1 ?U))) \<and>
     snd (createRoomAs now2 ?s1 Y ?U) = send s Y (RoomCreated ?U (length (members ?s2 ?U)))"
    by (auto simp: hasRoom_createRoomAs members_createRoomAs keys_createRoomAs
        roomId_createRoomAs snd_createRoomAs sd)
  from o1 o2 rest c show ?thesis by blast
qed

theorem create_twice_one_room_witness:
  "''AB12CD'' \<noteq> [] \<and> ''ab12cd'' \<noteq> [] \<and> toUpperCase ''ab12cd'' = toUpperCase ''AB12CD'' \<and>
   distinct (map fst (rooms idle)) \<and>
   distinct (members idle (toUpperCase ''AB12CD'')) \<and>
   map_option snd
     (onMessage 0 (\<lambda>n. 0) idle 0 (createMsg ''AB12CD'')) =
     Some [(0, RoomCreated ''AB12CD'' 1)] \<and>
   map_option snd
     (onMessage 1 (\<lambda>n. 0)
        (fst (createRoomAs 0 idle 0 ''AB12CD'')) 1
        (createMsg ''ab12cd'')) =
     Some [(1, RoomCreated ''AB12CD'' 2)]"
proof -
  have n: "''AB12CD'' \<noteq> []" "''ab12cd'' \<noteq> []" by simp_all
  have u: "toUpperCase ''ab12cd'' = toUpperCase ''AB12CD''"
    by (simp add: toUpperCase_def upper_char_def)
  have d: "distinct (map fst (rooms idle))"
    "distinct (members idle (toUpperCase ''AB12CD''))"
    by (simp_all add: idle_def members_def)
  from create_twice_one_room [OF n u, of 0 "\<lambda>n. 0" idle 0
      JUndefined JUndefined 1 "\<lambda>n. 0" 1 JUndefined JUndefined] n u d
  show ?thesis
    by (simp add: createMsg_def) (simp add: idle_def handler_defs)
qed

subsection \<open>C7: the user-count broadcast of \<open>join-room\<close>\<close>

text \<open>
  C7: a successful \<open>join-room\<close> (non-empty code whose upper-cased form has a membership
  set or a metadata entry) returns, the joiner is then a member, every member of the
  room whose socket is open (the source sends to no socket that is not \<open>OPEN\<close>), the
  joiner included, is sent \<open>user-count-update\<close> with the size of the set after the join,
  and no other \<open>user-count-update\<close> is sent. In particular, from a state where the room
  has no members, a \<open>create-room\<close> with an explicit code by X followed by a \<open>join-room\<close>
  by another connection Y with the code in any letter case, both sockets open, answers
  \<open>room-created\<close> with count 1 to X, then \<open>joined-room\<close> to Y and \<open>user-count-update\<close>
  with count 2 to X and to Y.
\<close>

theorem join_broadcasts_count:
  "(str \<noteq> [] \<and> (hasRoom s (toUpperCase str) \<or> hasMetadata s (toUpperCase str)) \<longrightarrow>
     (\<exists>s' out.
        onMessage now rnd s socket (Obj (JStr ''join-room'') (JStr str) content sender)
          = Some (s', out) \<and>
        socket \<in> set (members s' (toUpperCase str)) \<and>
        (\<forall>m \<in> set (members s' (toUpperCase str)). readyState s m = OPEN \<longrightarrow>
           (m, UserCountUpdate (length (members s' (toUpperCase str)))) \<in> set out) \<and>
        (\<forall>m n. (m, UserCountUpdate n) \<in> set out \<longrightarrow>
           m \<in> set (members s' (toUpperCase str)) \<and>
           n = length (members s' (toUpperCase str))))) \<and>
   (code \<noteq> [] \<and> code' \<noteq> [] \<and> toUpperCase code' = toUpperCase code \<and>
    members s0 (toUpperCase code) = [] \<and> X \<noteq> Y \<and>
    readyState s0 X = OPEN \<and> readyState s0 Y = OPEN \<longrightarrow>
     (\<exists>s1 s2.
        onMessage now1 rnd1 s0 X (Obj (JStr ''create-room'') (JStr code) content1 sender1)
          = Some (s1, [(X, RoomCreated (toUpperCase code) 1)]) \<and>
        onMessage now2 rnd2 s1 Y (Obj (JStr ''join-room'') (JStr code') content2 sender2)
          = Some (s2, [(Y, JoinedRoom (toUpperCase code)),
                       (X, UserCountUpdate 2), (Y, UserCountUpdate 2)])))"
proof (intro conjI impI)
  assume a: "str \<noteq> [] \<and> (hasRoom s (toUpperCase str) \<or> hasMetadata s (toUpperCase str))"
  let ?U = "toUpperCase str"
  let ?s' = "fst (joinRoomAs now s socket ?U)"
  let ?out = "snd (joinRoomAs now s socket ?U)"
  have om: "onMessage now rnd s socket (Obj (JStr ''join-room'') (JStr str) content sender)
       = Some (?s', ?out)"
    using a by (simp add: join_out)
  have m: "members ?s' ?U = set_add socket (members s ?U)"
    using a by (simp add: members_joinRoomAs)
  have out: "?out = send s socket (JoinedRoom ?U) @
           forEach_send s (members ?s' ?U) (\<lambda>client. UserCountUpdate (length (members ?s' ?U)))"
    using a by (simp add: snd_joinRoomAs m)
  have 1: "socket \<in> set (members ?s' ?U)" by (simp add: m)
  have 2: "\<forall>m \<in> set (members ?s' ?U). readyState s m = OPEN \<longrightarrow>
           (m, UserCountUpdate (length (members ?s' ?U))) \<in> set ?out"
    unfolding out by (simp add: forEach_send_iff)
  have 3: "\<forall>m n. (m, UserCountUpdate n) \<in> set ?out \<longrightarrow>
           m \<in> set (members ?s' ?U) \<and> n = length (members ?s' ?U)"
    unfolding out by (auto simp: forEach_send_iff send_def split: if_splits)
  from om 1 2 3
  show "\<exists>s' out.
        onMessage now rnd s socket (Obj (JStr ''join-room'') (JStr str) content sender)
          = Some (s', out) \<and>
        socket \<in> set (members s' ?U) \<and>
        (\<forall>m \<in> set (members s' ?U). readyState s m = OPEN \<longrightarrow>
           (m, UserCountUpdate (length (members s' ?U))) \<in> set out) \<and>
        (\<forall>m n. (m, UserCountUpdate n) \<in> set out \<longrightarrow>
           m \<in> set (members s' ?U) \<and> n = length (members s' ?U))"
    by blast
next
  assume b: "code \<noteq> [] \<and> code' \<noteq> [] \<and> toUpperCase code' = toUpperCase code \<and>
    members s0 (toUpperCase code) = [] \<and> X \<noteq> Y \<and>
    readyState s0 X = OPEN \<and> readyState s0 Y = OPEN"
  let ?U = "toUpperCase code"
  let ?s1 = "fst (createRoomAs now1 s0 X ?U)"
  let ?s2 = "fst (joinRoomAs now2 ?s1 Y ?U)"
  have c: "createRoomAs now1 s0 X ?U = (?s1, [(X, RoomCreated ?U 1)])"
    using b by (simp add: prod_eq_iff snd_createRoomAs send_def set_add_def)
  have h: "hasRoom ?s1 ?U" "members ?s1 ?U = [X]" "readyState ?s1 = readyState s0"
    using b by (simp_all add: hasRoom_createRoomAs members_createRoomAs set_add_def
        readyState_createRoomAs)
  have j: "joinRoomAs now2 ?s1 Y ?U =
             (?s2, [(Y, JoinedRoom ?U), (X, UserCountUpdate 2), (Y, UserCountUpdate 2)])"
    using b h by (simp add: prod_eq_iff snd_joinRoomAs send_def forEach_send_def set_add_def)
  from b c j
  show "\<exists>s1 s2.
        onMessage now1 rnd1 s0 X (Obj (JStr ''create-room'') (JStr code) content1 sender1)
          = Some (s1, [(X, RoomCreated ?U 1)]) \<and>
        onMessage now2 rnd2 s1 Y (Obj (JStr ''join-room'') (JStr code') content2 sender2)
          = Some (s2, [(Y, JoinedRoom ?U), (X, UserCountUpdate 2), (Y, UserCountUpdate 2)])"
    by (auto simp: create_out join_out)
qed

theorem join_broadcasts_count_witness:
  "''ab12cd'' \<noteq> [] \<and> hasRoom lobby (toUpperCase ''ab12cd'') \<and>
   readyState lobby 0 = OPEN \<and> readyState lobby 1 = OPEN \<and> readyState lobby 2 = OPEN \<and>
   map_option snd (onMessage 30 (\<lambda>n. 0) lobby 2 (joinMsg ''ab12cd'')) =
     Some [(2, JoinedRoom ''AB12CD''), (0, UserCountUpdate 3), (1, UserCountUpdate 3),
           (2, UserCountUpdate 3)] \<and>
   ''AB12CD'' \<noteq> [] \<and> toUpperCase ''ab12cd'' = toUpperCase ''AB12CD'' \<and>
   members idle (toUpperCase ''AB12CD'') = [] \<and> (0::nat) \<noteq> 1 \<and>
   readyState idle 0 = OPEN \<and> readyState idle 1 = OPEN \<and>
   map_option snd (onMessage 0 (\<lambda>n. 0) idle 0 (createMsg ''AB12CD'')) =
     Some [(0, RoomCreated ''AB12CD'' 1)] \<and>
   map_option snd
     (onMessage 1 (\<lambda>n. 0) (fst (createRoomAs 0 idle 0 ''AB12CD'')) 1 (joinMsg ''ab12cd'')) =
     Some [(1, JoinedRoom ''AB12CD''), (0, UserCountUpdate 2), (1, UserCountUpdate 2)]"
proof -
  have u: "toUpperCase ''ab12cd'' = ''AB12CD''" "toUpperCase ''AB12CD'' = ''AB12CD''"
    by (simp_all add: toUpperCase_def upper_char_def)
  have l: "hasRoom lobby ''AB12CD''" "readyState lobby 0 = OPEN" "readyState lobby 1 = OPEN"
    "readyState lobby 2 = OPEN" "members lobby ''AB12CD'' = [0, 1]"
    by (simp_all add: lobby_def hasRoom_def members_def)
  have i: "members idle ''AB12CD'' = []" "readyState idle 0 = OPEN" "readyState idle 1 = OPEN"
    by (simp_all add: idle_def members_def)
  have c: "onMessage 0 (\<lambda>n. 0) idle 0 (Obj (JStr ''create-room'') (JStr ''AB12CD'') JUndefined JUndefined)
             = Some (createRoomAs 0 idle 0 ''AB12CD'')"
    by (simp add: create_out u)
  have j: "onMessage 30 (\<lambda>n. 0) lobby 2 (Obj (JStr ''join-room'') (JStr ''ab12cd'') JUndefined JUndefined)
             = Some (joinRoomAs 30 lobby 2 ''AB12CD'')"
    by (simp add: join_out u)
  have jo: "snd (joinRoomAs 30 lobby 2 ''AB12CD'') =
     [(2, JoinedRoom ''AB12CD''), (0, UserCountUpdate 3), (1, UserCountUpdate 3),
           (2, UserCountUpdate 3)]"
    using l by (simp add: snd_joinRoomAs send_def forEach_send_def set_add_def)
  from join_broadcasts_count [of "''ab12cd''" lobby 30 "\<lambda>n. 0" 2 JUndefined JUndefined
      "''AB12CD''" "''ab12cd''" idle 0 1 0 "\<lambda>n. 0" JUndefined JUndefined 1 "\<lambda>n. 0"
      JUndefined JUndefined]
    u l i c j jo
  show ?thesis
    by (auto simp: createMsg_def joinMsg_def)
qed

subsection \<open>C8: leaving on \<open>close\<close>\<close>

text \<open>
  C8: when a connection bound to room \<open>r\<close> emits \<open>close\<close> in a state the server
  reaches, the handler returns, the connection is removed from the membership set of
  \<open>r\<close>, all other sets are untouched, no membership set and no metadata entry is
  deleted or changed. If members remain, the frames sent are \<open>user-count-update\<close> with
  the remaining count to the remaining members (those whose socket is open); if none
  remain, nothing is sent, and after a sweep at any time at which the room's metadata,
  if it has any, is not older than \<open>expireTime\<close>, a \<open>join-room\<close> for the code succeeds.
\<close>

theorem close_leaves_room:
  assumes "run init es = Some (s, out0)" and "live s c" and "roomId s c = Some r"
  shows "\<exists>s' out.
     step s (Close c) = Some (s', out) \<and>
     members s' r = set_delete c (members s r) \<and> c \<notin> set (members s' r) \<and>
     (\<forall>r'. r' \<noteq> r \<longrightarrow> members s' r' = members s r') \<and>
     (\<forall>r'. hasRoom s' r' = hasRoom s r') \<and> hasRoom s' r \<and>
     roomMetadata s' = roomMetadata s \<and>
     (members s' r \<noteq> [] \<longrightarrow>
        out = forEach_send s' (members s' r) (\<lambda>client. UserCountUpdate (length (members s' r)))) \<and>
     (members s' r = [] \<longrightarrow>
        out = [] \<and>
        (\<forall>now' now'' rnd c' str ct sn.
           str \<noteq> [] \<and> toUpperCase str = r \<and> readyState s' c' = OPEN \<and>
           (\<forall>m. map_of (roomMetadata s') r = Some m \<longrightarrow> now' - lastActivity m \<le> expireTime) \<longrightarrow>
           (\<exists>s'' out'.
              onMessage now'' rnd (sweep now' s') c' (Obj (JStr ''join-room'') (JStr str) ct sn)
                = Some (s'', out') \<and>
              (c', JoinedRoom r) \<in> set out' \<and> c' \<in> set (members s'' r))))"
proof -
  let ?s1 = "s\<lparr>readyState := (readyState s)(c := CLOSED)\<rparr>"
  let ?s' = "fst (onClose ?s1 c)"
  let ?out = "snd (onClose ?s1 c)"
  have wb: "wellBound s"
    using run_wellBound [OF assms(1) init_wellBound] .
  with assms(2,3) have r: "r \<noteq> []" "hasRoom s r" "c \<in> set (members s r)"
    by (auto simp: wellBound_def)
  have s1: "members ?s1 = members s" "hasRoom ?s1 = hasRoom s" "roomId ?s1 = roomId s"
    by (simp_all add: members_readyState_update hasRoom_readyState_update)
  have st: "step s (Close c) = Some (?s', ?out)"
    using assms(2) by simp
  have m: "members ?s' r = set_delete c (members s r)"
    using assms(3) r by (simp add: members_onClose s1)
  have m': "\<forall>r'. r' \<noteq> r \<longrightarrow> members ?s' r' = members s r'"
    using assms(3) by (simp add: members_onClose s1)
  have h: "\<forall>r'. hasRoom ?s' r' = hasRoom s r'"
    by (simp add: hasRoom_onClose s1)
  have md: "roomMetadata ?s' = roomMetadata s"
    by (simp add: roomMetadata_onClose)
  have fs: "forEach_send ?s' = forEach_send ?s1"
    by (simp add: forEach_send_def send_def fun_eq_iff readyState_onClose)
  have out: "?out = (if members ?s' r \<noteq> []
               then forEach_send ?s' (members ?s' r)
                      (\<lambda>client. UserCountUpdate (length (members ?s' r)))
               else [])"
    using assms(3) r by (simp add: snd_onClose s1 m fs)
  have later: "\<exists>s'' out'.
              onMessage now'' rnd (sweep now' ?s') c' (Obj (JStr ''join-room'') (JStr str) ct sn)
                = Some (s'', out') \<and>
              (c', JoinedRoom r) \<in> set out' \<and> c' \<in> set (members s'' r)"
    if w: "str \<noteq> [] \<and> toUpperCase str = r \<and> readyState ?s' c' = OPEN \<and>
           (\<forall>m. map_of (roomMetadata ?s') r = Some m \<longrightarrow> now' - lastActivity m \<le> expireTime)"
    for now' now'' rnd c' str ct sn
  proof -
    from w have "\<not> expiredRoom now' ?s' r" by (simp add: window_not_expired)
    with h r(2) have hr: "hasRoom (sweep now' ?s') r" by (simp add: hasRoom_sweep)
    from w have o: "readyState (sweep now' ?s') c' = OPEN" by simp
    let ?j = "joinRoomAs now'' (sweep now' ?s') c' r"
    from w have "onMessage now'' rnd (sweep now' ?s') c' (Obj (JStr ''join-room'') (JStr str) ct sn)
                = Some (fst ?j, snd ?j)"
      by (simp add: join_out)
    moreover from hr o have "(c', JoinedRoom r) \<in> set (snd ?j)"
      by (simp add: snd_joinRoomAs send_def)
    moreover from hr have "c' \<in> set (members (fst ?j) r)"
      by (simp add: members_joinRoomAs)
    ultimately show ?thesis by blast
  qed
  have notin: "c \<notin> set (members ?s' r)" by (simp add: m)
  have hr: "hasRoom ?s' r" using h r(2) by simp
  have o1: "members ?s' r \<noteq> [] \<longrightarrow>
        ?out = forEach_send ?s' (members ?s' r)
                 (\<lambda>client. UserCountUpdate (length (members ?s' r)))"
    using out by simp
  have o2: "members ?s' r = [] \<longrightarrow>
        ?out = [] \<and>
        (\<forall>now' now'' rnd c' str ct sn.
           str \<noteq> [] \<and> toUpperCase str = r \<and> readyState ?s' c' = OPEN \<and>
           (\<forall>m. map_of (roomMetadata ?s') r = Some m \<longrightarrow> now' - lastActivity m \<le> expireTime) \<longrightarrow>
           (\<exists>s'' out'.
              onMessage now'' rnd (sweep now' ?s') c' (Obj (JStr ''join-room'') (JStr str) ct sn)
                = Some (s'', out') \<and>
              (c', JoinedRoom r) \<in> set out' \<and> c' \<in> set (members s'' r)))"
    using out later by simp
  from st m notin m' h hr md o1 o2 show ?thesis
    by (intro exI [of _ ?s'] exI [of _ ?out] conjI)
qed

theorem close_leaves_room_witness:
  "run init lobbyTrace \<noteq> None \<and> live lobby 1 \<and> roomId lobby 1 = Some ''AB12CD'' \<and>
   map_option snd (step lobby (Close 1)) = Some [(0, UserCountUpdate 1)] \<and>
   run init soloTrace \<noteq> None \<and> live solo 0 \<and> roomId solo 0 = Some ''AB12CD'' \<and>
   map_option snd (step solo (Close 0)) = Some [] \<and>
   members (fst (onClose (solo\<lparr>readyState := (readyState solo)(0 := CLOSED)\<rparr>) 0)) ''AB12CD'' = [] \<and>
   map_of (roomMetadata (fst (onClose (solo\<lparr>readyState := (readyState solo)(0 := CLOSED)\<rparr>) 0)))
     ''AB12CD'' = Some \<lparr>created = 0, lastActivity = 0\<rparr> \<and>
   (600000 :: int) - 0 \<le> expireTime \<and>
   map_option snd
     (onMessage 600001 (\<lambda>n. 0)
        (sweep 600000 (fst (onClose (solo\<lparr>readyState := (readyState solo)(0 := CLOSED)\<rparr>) 0)))
        1 (joinMsg ''ab12cd'')) =
     Some [(1, JoinedRoom ''AB12CD''), (1, UserCountUpdate 1)]"
proof -
  have l: "live lobby 1" "roomId lobby 1 = Some ''AB12CD''"
    by (simp_all add: lobby_def live_def)
  have s: "live solo 0" "roomId solo 0 = Some ''AB12CD''"
    by (simp_all add: solo_def live_def)
  have e: "(600000 :: int) - 0 \<le> expireTime" by (simp add: expireTime_def)
  have c1: "map_option snd (step lobby (Close 1)) = Some [(0, UserCountUpdate 1)]"
    by (simp add: lobby_def handler_defs)
  have c2: "map_option snd (step solo (Close 0)) = Some []"
    "members (fst (onClose (solo\<lparr>readyState := (readyState solo)(0 := CLOSED)\<rparr>) 0)) ''AB12CD'' = []"
    "map_of (roomMetadata (fst (onClose (solo\<lparr>readyState := (readyState solo)(0 := CLOSED)\<rparr>) 0)))
       ''AB12CD'' = Some \<lparr>created = 0, lastActivity = 0\<rparr>"
    by (simp_all add: solo_def handler_defs)
  have j: "map_option snd
     (onMessage 600001 (\<lambda>n. 0)
        (sweep 600000 (fst (onClose (solo\<lparr>readyState := (readyState solo)(0 := CLOSED)\<rparr>) 0)))
        1 (joinMsg ''ab12cd'')) =
     Some [(1, JoinedRoom ''AB12CD''), (1, UserCountUpdate 1)]"
    by (simp add: solo_def sweep_def sweepRoom_def expireTime_def handler_defs)
  from close_leaves_room [OF lobby_reachable l] close_leaves_room [OF solo_reachable s]
    l s e c1 c2 j lobby_reachable solo_reachable
  show ?thesis by simp
qed

subsection \<open>C9: the expiry sweep\<close>

text \<open>
  C9: a sweep pass deletes the metadata entry and the membership set of a room exactly
  when the room has a metadata entry, its membership set is absent or empty, and more
  than \<open>expireTime\<close> (ten minutes) has passed since \<open>lastActivity\<close> (\<open>expiredRoom\<close>); every
  other entry of both tables is kept as it is, and a room with at least one member is
  never deleted, whatever the time.
\<close>

theorem sweep_deletes_exactly_expired:
  "map_of (roomMetadata (sweep now s)) r =
     (if expiredRoom now s r then None else map_of (roomMetadata s) r) \<and>
   map_of (rooms (sweep now s)) r =
     (if expiredRoom now s r then None else map_of (rooms s) r) \<and>
   (members s r \<noteq> [] \<longrightarrow>
      map_of (roomMetadata (sweep now s)) r = map_of (roomMetadata s) r \<and>
      map_of (rooms (sweep now s)) r = map_of (rooms s) r)"
  using expiredRoom_members [of now s r] by (auto simp: meta_sweep rooms_sweep)

theorem sweep_deletes_exactly_expired_witness:
  "members twoRooms ''ZZZZZZ'' \<noteq> [] \<and>
   expiredRoom 600001 twoRooms ''AB12CD'' \<and>
   map_of (roomMetadata (sweep 600001 twoRooms)) ''AB12CD'' = None \<and>
   map_of (rooms (sweep 600001 twoRooms)) ''AB12CD'' = None \<and>
   map_of (roomMetadata (sweep 600001 twoRooms)) ''ZZZZZZ'' =
     Some \<lparr>created = 0, lastActivity = 0\<rparr> \<and>
   map_of (rooms (sweep 600001 twoRooms)) ''ZZZZZZ'' = Some [1] \<and>
   map_of (rooms (sweep 600000 twoRooms)) ''AB12CD'' = Some []"
proof -
  have m: "members twoRooms ''ZZZZZZ'' \<noteq> []"
    by (simp add: twoRooms_def members_def)
  have e: "expiredRoom 600001 twoRooms ''AB12CD''"
    by (simp add: twoRooms_def expiredRoom_def expireTime_def members_def hasRoom_def)
  have n: "\<not> expiredRoom 600000 twoRooms ''AB12CD''" "\<not> expiredRoom 600001 twoRooms ''ZZZZZZ''"
    by (simp_all add: twoRooms_def expiredRoom_def expireTime_def members_def hasRoom_def)
  have z: "map_of (roomMetadata twoRooms) ''ZZZZZZ'' = Some \<lparr>created = 0, lastActivity = 0\<rparr>"
    "map_of (rooms twoRooms) ''ZZZZZZ'' = Some [1]"
    "map_of (rooms twoRooms) ''AB12CD'' = Some []"
    by (simp_all add: twoRooms_def)
  from m e n z sweep_deletes_exactly_expired [of 600001 twoRooms "''AB12CD''"]
    sweep_deletes_exactly_expired [of 600001 twoRooms "''ZZZZZZ''"]
    sweep_deletes_exactly_expired [of 600000 twoRooms "''AB12CD''"]
  show ?thesis by simp
qed

subsection \<open>C10: chat routing follows the frame's \<open>roomId\<close>\<close>

text \<open>
  C10: a \<open>chat-message\<close> frame that names a room whose membership set exists is handled
  without looking at the sender's own \<open>roomId\<close>: whoever sends it, the handler returns,
  every member of the named room whose socket is open gets the message (the source
  sends to no socket that is not \<open>OPEN\<close>), nobody else gets anything, and when the sender
  is not a member no delivery carries \<open>isOwnMessage = true\<close>.
\<close>

theorem chat_routed_by_roomId:
  assumes "map_of (rooms s) (toUpperCase r) = Some cs"
  shows "\<exists>out. onMessage now rnd s socket (Obj (JStr ''chat-message'') (JStr r) (JStr ct) (JStr sn))
                 = Some (s, out) \<and>
           (\<forall>m \<in> set cs. readyState s m = OPEN \<longrightarrow> (m, ChatMessage ct sn (m = socket)) \<in> set out) \<and>
           (\<forall>m msg. (m, msg) \<in> set out \<longrightarrow> m \<in> set cs \<and> msg = ChatMessage ct sn (m = socket)) \<and>
           (socket \<notin> set cs \<longrightarrow> (\<forall>m x y. (m, ChatMessage x y True) \<notin> set out))"
  using assms
  by (auto simp: onMessage_def chatMessage_def chatMessageIn_def forEach_send_iff)

theorem chat_routed_by_roomId_witness:
  "map_of (rooms lobby) (toUpperCase ''ab12cd'') = Some [0, 1] \<and>
   roomId lobby 2 = None \<and> 2 \<notin> set [0, 1 :: nat] \<and>
   readyState lobby 0 = OPEN \<and> readyState lobby 1 = OPEN \<and>
   onMessage 20 (\<lambda>n. 0) lobby 2 (chatMsg ''ab12cd'' ''hi'' ''eve'') =
     Some (lobby, [(0, ChatMessage ''hi'' ''eve'' False), (1, ChatMessage ''hi'' ''eve'' False)])"
proof -
  have h: "map_of (rooms lobby) (toUpperCase ''ab12cd'') = Some [0, 1]"
    by (simp add: lobby_def toUpperCase_def upper_char_def)
  from chat_routed_by_roomId [OF h, of 20 "\<lambda>n. 0" 2 "''hi''" "''eve''"]
  obtain out where
    o: "onMessage 20 (\<lambda>n. 0) lobby 2 (Obj (JStr ''chat-message'') (JStr ''ab12cd'') (JStr ''hi'') (JStr ''eve''))
          = Some (lobby, out)"
    by blast
  have "out = [(0, ChatMessage ''hi'' ''eve'' False), (1, ChatMessage ''hi'' ''eve'' False)]"
    using o h
    by (simp add: onMessage_def chatMessage_def chatMessageIn_def forEach_send_def send_def lobby_def)
  with o h show ?thesis
    by (simp add: chatMsg_def) (simp add: lobby_def)
qed

end
